theory Spec2Isabelle
  imports Complex_Main "HOL-Library.Multiset"
begin

section \<open>Strings and numbers\<close>

text \<open>
  A JavaScript string is a sequence of UTF-16 code units; a code unit is modelled as a
  natural number, so every string the program can receive is a value of \<open>jsstring\<close>.
  \<open>str\<close> embeds an ASCII literal.
\<close>

type_synonym jsstring = "nat list"

definition str :: "string \<Rightarrow> jsstring" where
  "str s = map of_char s"

text \<open>
  A JavaScript \<open>number\<close> is modelled as an exact rational, or one of the three
  non-finite values. Rounding to a double and the sign of zero are outside the model:
  every arithmetic result below is the exact quotient or product.
\<close>

datatype jsnum = Num rat | NaN | PosInf | NegInf

text \<open>\<open>a === b\<close> on numbers: \<open>NaN\<close> equals nothing.\<close>

fun js_eq :: "jsnum \<Rightarrow> jsnum \<Rightarrow> bool" where
  "js_eq NaN _ = False"
| "js_eq _ NaN = False"
| "js_eq a b = (a = b)"

text \<open>\<open>a <= b\<close> on numbers: false as soon as one side is \<open>NaN\<close>.\<close>

fun js_le :: "jsnum \<Rightarrow> jsnum \<Rightarrow> bool" where
  "js_le NaN _ = False"
| "js_le _ NaN = False"
| "js_le NegInf _ = True"
| "js_le _ PosInf = True"
| "js_le PosInf _ = False"
| "js_le _ NegInf = False"
| "js_le (Num a) (Num b) = (a \<le> b)"

text \<open>\<open>Math.min\<close> and \<open>Math.max\<close> of two numbers: \<open>NaN\<close> if either is.\<close>

fun js_min :: "jsnum \<Rightarrow> jsnum \<Rightarrow> jsnum" where
  "js_min NaN _ = NaN"
| "js_min _ NaN = NaN"
| "js_min a b = (if js_le a b then a else b)"

fun js_max :: "jsnum \<Rightarrow> jsnum \<Rightarrow> jsnum" where
  "js_max NaN _ = NaN"
| "js_max _ NaN = NaN"
| "js_max a b = (if js_le a b then b else a)"

text \<open>\<open>a / b\<close> on numbers (a zero divisor is taken as \<open>+0\<close>).\<close>

fun js_div :: "jsnum \<Rightarrow> jsnum \<Rightarrow> jsnum" where
  "js_div NaN _ = NaN"
| "js_div _ NaN = NaN"
| "js_div (Num a) (Num b) =
     (if b = 0 then (if a = 0 then NaN else if 0 < a then PosInf else NegInf)
      else Num (a / b))"
| "js_div (Num a) _ = Num 0"
| "js_div PosInf (Num b) = (if 0 \<le> b then PosInf else NegInf)"
| "js_div NegInf (Num b) = (if 0 \<le> b then NegInf else PosInf)"
| "js_div _ _ = NaN"

text \<open>
  A JavaScript value as \<open>JSON.parse\<close> can build it, or as the import path stores it;
  \<open>undefined\<close> is the \<open>None\<close> of an option around it. An object is its list of
  members in source order; a later member with the same key overrides an earlier one.
\<close>

datatype jsvalue =
    JNull
  | JBool bool
  | JNum jsnum
  | JStr jsstring
  | JArr "jsvalue list"
  | JObj "(jsstring \<times> jsvalue) list"

datatype error = SyntaxError | TypeError | Error jsstring

section \<open>Scoring engine\<close>

text \<open>
  \<open>new Map<number, number>()\<close> filled by
  \<open>xs.forEach(val => m.set(val, (m.get(val) || 0) + 1))\<close>.
\<close>

definition get_or_zero :: "('a \<rightharpoonup> nat) \<Rightarrow> 'a \<Rightarrow> nat" where
  "get_or_zero m v = (case m v of None \<Rightarrow> 0 | Some n \<Rightarrow> n)"

definition count_occurrences :: "'a list \<Rightarrow> ('a \<rightharpoonup> nat)" where
  "count_occurrences xs = foldl (\<lambda>m v. m(v \<mapsto> get_or_zero m v + 1)) Map.empty xs"

text \<open>\<open>new Set(xs)\<close>, iterated in insertion order: the first occurrence of each value.\<close>

definition set_in_order :: "'a list \<Rightarrow> 'a list" where
  "set_in_order xs = rev (remdups (rev xs))"

text \<open>
  \<open>calculateClassAccuracy(actual, predicted)\<close>. Class ids are values of a linear order
  (integers, or the finite numbers the normaliser lets through); \<open>sort\<close> is the
  numeric sort of \<open>[...xs].sort((a, b) => a - b)\<close>.
\<close>

definition calculateClassAccuracy :: "'a::linorder list \<Rightarrow> 'a list \<Rightarrow> rat" where
  "calculateClassAccuracy actual predicted =
    (if length actual = 0 \<and> length predicted = 0 then 1
     else if length actual = 0 \<or> length predicted = 0 then 0
     else
       let sortedActual = sort actual;
           sortedPredicted = sort predicted
       in
       if length sortedActual = length sortedPredicted \<and>
          list_all (\<lambda>idx. sortedActual ! idx = sortedPredicted ! idx) [0..<length sortedActual]
       then 1
       else
         let actualCounts = count_occurrences sortedActual;
             predictedCounts = count_occurrences sortedPredicted;
             allClasses = set_in_order (actual @ predicted);
             correctMatches =
               foldl (\<lambda>acc classId.
                        acc + min (get_or_zero actualCounts classId)
                                  (get_or_zero predictedCounts classId))
                     0 allClasses;
             minTotal = min (length actual) (length predicted);
             maxTotal = max (length actual) (length predicted)
         in
         if length actual = length predicted
         then (if maxTotal > 0 then of_nat correctMatches / of_nat maxTotal else 0)
         else
           let baseScore = of_nat correctMatches / of_nat maxTotal;
               lengthPenalty = of_nat (min (length actual) (length predicted))
                               / of_nat (max (length actual) (length predicted))
           in baseScore * lengthPenalty)"

record score =
  countAccuracy :: jsnum
  classAccuracy :: jsnum

text \<open>\<open>calculateImageScore(actualCount, actualClasses, predictedCount, predictedClasses)\<close>.\<close>

definition calculateImageScore ::
  "jsnum \<Rightarrow> 'a::linorder list \<Rightarrow> jsnum \<Rightarrow> 'a list \<Rightarrow> score" where
  "calculateImageScore actualCount actualClasses predictedCount predictedClasses =
    (let countAccuracy =
           (if js_eq actualCount (Num 0) \<and> js_eq predictedCount (Num 0) then Num 1
            else if js_eq actualCount (Num 0) \<or> js_eq predictedCount (Num 0) then Num 0
            else js_div (js_min actualCount predictedCount) (js_max actualCount predictedCount));
         classAccuracy = calculateClassAccuracy actualClasses predictedClasses
     in \<lparr>countAccuracy = countAccuracy, classAccuracy = Num classAccuracy\<rparr>)"

text \<open>
  The class accuracy as the specification words it, on multisets: the reference the
  code is compared with.
\<close>

definition classAccuracy_spec :: "'a multiset \<Rightarrow> 'a multiset \<Rightarrow> rat" where
  "classAccuracy_spec A P =
    (if A = {#} \<and> P = {#} then 1
     else if A = {#} \<or> P = {#} then 0
     else if A = P then 1
     else
       let correct = sum (\<lambda>c. min (count A c) (count P c)) (set_mset A \<union> set_mset P);
           maxTotal = max (size A) (size P)
       in
       if size A = size P then of_nat correct / of_nat maxTotal
       else (of_nat correct / of_nat maxTotal)
            * (of_nat (min (size A) (size P)) / of_nat (max (size A) (size P))))"

text \<open>A number lies in the closed unit interval.\<close>

fun in_unit_interval :: "jsnum \<Rightarrow> bool" where
  "in_unit_interval (Num r) = (0 \<le> r \<and> r \<le> 1)"
| "in_unit_interval _ = False"

section \<open>Data model\<close>

text \<open>
  \<open>EvaluationImage\<close>, \<open>EvaluationConfig\<close>, \<open>EvaluationResult\<close> of the evaluation
  service and \<open>SelectedModel\<close>, \<open>ModelEvaluation\<close> of the evaluation hook. An
  optional field (\<open>f?: T\<close>) is an option. Counts, class ids, pixel sizes and
  millisecond durations are integers; \<open>status\<close> is the string the code stores (the
  import casts a cell to the union type without checking it).
\<close>

record EvaluationImage =
  id :: jsstring
  filename :: jsstring
  subset :: jsstring
  imageUrl :: jsstring
  actualObjects :: int
  actualClasses :: "int list"
  actualClassNames :: "jsstring list"
  predictedObjects :: "int option"
  predictedClasses :: "int list option"
  predictedClassNames :: "jsstring list option"
  predictedCountConfidence :: "jsvalue option"
  predictedClassConfidences :: "jsnum list option"
  llmResponse :: "jsstring option"
  score :: "score option"
  apiDuration :: "int option"
  cost :: "jsnum option"
  imageWidth :: "int option"
  imageHeight :: "int option"
  status :: jsstring

record EvaluationConfig =
  sampleSize :: int
  llmProvider :: jsstring
  llmModel :: jsstring
  systemPrompt :: jsstring
  config_subset :: jsstring
  includeOntology :: bool
  enableZeroShotOntologyByExample :: bool
  structuredOutput :: bool
  apiDelaySeconds :: rat

record EvaluationResult =
  config :: EvaluationConfig
  images :: "EvaluationImage list"
  averageCountAccuracy :: jsnum
  averageClassAccuracy :: jsnum
  totalCost :: jsnum
  startTime :: int
  endTime :: "int option"
  duration :: "int option"

record SelectedModel =
  model_id :: jsstring
  model_name :: jsstring
  provider :: jsstring
  providerName :: jsstring

record ModelEvaluation =
  model :: SelectedModel
  me_images :: "EvaluationImage list"
  results :: "EvaluationResult option"
  isRunning :: bool
  currentImageIndex :: nat
  progress :: rat
  me_config :: EvaluationConfig

section \<open>Evaluation hook: stop and reset\<close>

text \<open>
  The state the two callbacks touch: the \<open>stopFlags\<close> ref (the cancellation flag of
  each model, read at the top of every iteration of the run loop) and the
  \<open>modelEvaluations\<close> React state. Each callback returns the new state and the
  exception of the state updater, if any: \<open>prev[modelId].images\<close> is a
  \<open>TypeError\<close> when the model has no entry, and the state is then left as it was.
\<close>

record hook_state =
  stopFlags :: "jsstring \<rightharpoonup> bool"
  modelEvaluations :: "jsstring \<rightharpoonup> ModelEvaluation"

definition stopEvaluation :: "jsstring \<Rightarrow> hook_state \<Rightarrow> hook_state \<times> error option" where
  "stopEvaluation modelId st =
    (let st1 = st\<lparr>stopFlags := (stopFlags st)(modelId \<mapsto> True)\<rparr>
     in case modelEvaluations st1 modelId of
          None \<Rightarrow> (st1, Some TypeError)
        | Some prev \<Rightarrow>
            (st1\<lparr>modelEvaluations := (modelEvaluations st1)(modelId \<mapsto>
               prev\<lparr>isRunning := False,
                     results := None,
                     me_images := map (\<lambda>img. img\<lparr>
                         status := str ''pending'',
                         score := None,
                         predictedObjects := Some 0,
                         predictedClasses := Some [],
                         predictedCountConfidence := None,
                         predictedClassConfidences := Some [],
                         llmResponse := Some [],
                         apiDuration := Some 0,
                         cost := Some (Num 0)\<rparr>) (me_images prev)\<rparr>)\<rparr>,
             None))"

definition resetEvaluation :: "jsstring \<Rightarrow> hook_state \<Rightarrow> hook_state \<times> error option" where
  "resetEvaluation modelId st =
    (case modelEvaluations st modelId of
       None \<Rightarrow> (st, Some TypeError)
     | Some prev \<Rightarrow>
         (st\<lparr>modelEvaluations := (modelEvaluations st)(modelId \<mapsto>
            prev\<lparr>isRunning := False,
                  currentImageIndex := 0,
                  progress := 0,
                  results := None,
                  me_images := map (\<lambda>img. img\<lparr>
                      status := str ''pending'',
                      score := None,
                      predictedObjects := Some 0,
                      predictedClasses := Some [],
                      predictedCountConfidence := None,
                      predictedClassConfidences := Some [],
                      llmResponse := Some [],
                      apiDuration := Some 0,
                      cost := Some (Num 0)\<rparr>) (me_images prev)\<rparr>)\<rparr>,
          None))"

section \<open>String built-ins of the language\<close>

text \<open>
  The white space of \<open>String.prototype.trim\<close>, of \<open>\s\<close> in a regular expression and
  of the string-to-number conversions: the ECMAScript \<open>WhiteSpace\<close> and
  \<open>LineTerminator\<close> code points (TAB, LF, VT, FF, CR, SP, NBSP, U+1680,
  U+2000..U+200A, U+2028, U+2029, U+202F, U+205F, U+3000, U+FEFF).
\<close>

definition is_js_whitespace :: "nat \<Rightarrow> bool" where
  "is_js_whitespace c =
    (c = 9 \<or> c = 10 \<or> c = 11 \<or> c = 12 \<or> c = 13 \<or> c = 32 \<or> c = 160 \<or> c = 5760
     \<or> (8192 \<le> c \<and> c \<le> 8202) \<or> c = 8232 \<or> c = 8233 \<or> c = 8239 \<or> c = 8287
     \<or> c = 12288 \<or> c = 65279)"

text \<open>\<open>\d\<close> and \<open>\w\<close> of a regular expression without the \<open>u\<close> flag.\<close>

definition is_digit :: "nat \<Rightarrow> bool" where
  "is_digit c = (48 \<le> c \<and> c \<le> 57)"

definition is_word_char :: "nat \<Rightarrow> bool" where
  "is_word_char c = (is_digit c \<or> (65 \<le> c \<and> c \<le> 90) \<or> (97 \<le> c \<and> c \<le> 122) \<or> c = 95)"

definition js_trim_start :: "jsstring \<Rightarrow> jsstring" where
  "js_trim_start s = dropWhile is_js_whitespace s"

definition js_trim_end :: "jsstring \<Rightarrow> jsstring" where
  "js_trim_end s = rev (dropWhile is_js_whitespace (rev s))"

definition js_trim :: "jsstring \<Rightarrow> jsstring" where
  "js_trim s = js_trim_end (js_trim_start s)"

definition js_startsWith :: "jsstring \<Rightarrow> jsstring \<Rightarrow> bool" where
  "js_startsWith s p = (take (length p) s = p)"

text \<open>The value of a digit in a radix up to 16, and of a digit string.\<close>

definition digit_value :: "nat \<Rightarrow> nat \<Rightarrow> nat option" where
  "digit_value radix c =
    (let v = (if 48 \<le> c \<and> c \<le> 57 then Some (c - 48)
              else if 97 \<le> c \<and> c \<le> 102 then Some (c - 87)
              else if 65 \<le> c \<and> c \<le> 70 then Some (c - 55)
              else None)
     in case v of None \<Rightarrow> None | Some d \<Rightarrow> if d < radix then Some d else None)"

definition is_radix_digit :: "nat \<Rightarrow> nat \<Rightarrow> bool" where
  "is_radix_digit radix c = (digit_value radix c \<noteq> None)"

definition digits_value :: "nat \<Rightarrow> jsstring \<Rightarrow> nat" where
  "digits_value radix ds = foldl (\<lambda>a c. a * radix + the (digit_value radix c)) 0 ds"

text \<open>The number \<open>m * 10 ^ e\<close>, exactly.\<close>

definition scale10 :: "int \<Rightarrow> int \<Rightarrow> rat" where
  "scale10 m e = (if 0 \<le> e then of_int (m * 10 ^ nat e) else of_int m / of_int (10 ^ nat (- e)))"

text \<open>
  An optional exponent part \<open>[eE][+-]?[0-9]+\<close> at the head of a string: the exponent
  and the rest, \<open>None\<close> when an \<open>e\<close> is there without its digits. Without an
  \<open>e\<close> the exponent is 0 and nothing is consumed.
\<close>

definition exponent_part :: "jsstring \<Rightarrow> (int \<times> jsstring) option" where
  "exponent_part s =
    (case s of
       [] \<Rightarrow> Some (0, s)
     | c # t \<Rightarrow>
         if c = 101 \<or> c = 69 then
           (let (sgn, u) = (case t of
                              [] \<Rightarrow> (1, t)
                            | d # w \<Rightarrow> if d = 43 then (1, w) else if d = 45 then (- 1, w) else (1, t));
                ds = takeWhile is_digit u
            in if ds = [] then None
               else Some (sgn * int (digits_value 10 ds), dropWhile is_digit u))
         else Some (0, s))"

text \<open>
  \<open>StrUnsignedDecimalLiteral\<close> without \<open>Infinity\<close>, read at the head of a string:
  digits, an optional fraction, an optional exponent, with at least one digit before
  the exponent. Returns the value and the rest. An exponent that lacks its digits
  is not part of the literal.
\<close>

definition decimal_prefix :: "jsstring \<Rightarrow> (rat \<times> jsstring) option" where
  "decimal_prefix s =
    (let ip = takeWhile is_digit s;
         r1 = dropWhile is_digit s;
         (fp, r2) = (case r1 of
                       [] \<Rightarrow> ([], r1)
                     | c # t \<Rightarrow> if c = 46 then (takeWhile is_digit t, dropWhile is_digit t)
                                else ([], r1))
     in if ip = [] \<and> fp = [] then None
        else
          let (e, r3) = (case exponent_part r2 of None \<Rightarrow> (0, r2) | Some er \<Rightarrow> er)
          in Some (scale10 (int (digits_value 10 (ip @ fp))) (e - int (length fp)), r3))"

text \<open>
  \<open>StringToNumber\<close>, the conversion \<open>Number(s)\<close> applies to a string: white space
  around the literal is dropped, the empty string is 0, a literal is a signed decimal
  (or \<open>Infinity\<close>) or an unsigned hexadecimal, octal or binary integer, and anything
  else is \<open>NaN\<close>.
\<close>

definition string_to_number :: "jsstring \<Rightarrow> jsnum" where
  "string_to_number s =
    (let t = js_trim s in
     if t = [] then Num 0
     else if length t > 2 \<and> t ! 0 = 48 \<and> (t ! 1 = 120 \<or> t ! 1 = 88) then
       (if list_all (is_radix_digit 16) (drop 2 t) then Num (of_nat (digits_value 16 (drop 2 t)))
        else NaN)
     else if length t > 2 \<and> t ! 0 = 48 \<and> (t ! 1 = 111 \<or> t ! 1 = 79) then
       (if list_all (is_radix_digit 8) (drop 2 t) then Num (of_nat (digits_value 8 (drop 2 t)))
        else NaN)
     else if length t > 2 \<and> t ! 0 = 48 \<and> (t ! 1 = 98 \<or> t ! 1 = 66) then
       (if list_all (is_radix_digit 2) (drop 2 t) then Num (of_nat (digits_value 2 (drop 2 t)))
        else NaN)
     else
       let (neg, u) = (case t of
                         [] \<Rightarrow> (False, t)
                       | c # w \<Rightarrow> if c = 45 then (True, w) else if c = 43 then (False, w)
                                  else (False, t))
       in if u = str ''Infinity'' then (if neg then NegInf else PosInf)
          else
            (case decimal_prefix u of
               None \<Rightarrow> NaN
             | Some (v, rest) \<Rightarrow> if rest = [] then Num (if neg then - v else v) else NaN))"

section \<open>JSON.parse\<close>

text \<open>
  \<open>JSON.parse\<close> is the language's: it is modelled after the JSON grammar of ECMA-404,
  which ECMAScript prescribes, as a lexer followed by a stack machine. A number is its
  exact decimal value.
\<close>

datatype token =
    TLBrace | TRBrace | TLBrack | TRBrack | TColon | TComma
  | TStr jsstring | TNum rat | TTrue | TFalse | TNull

definition is_json_whitespace :: "nat \<Rightarrow> bool" where
  "is_json_whitespace c = (c = 9 \<or> c = 10 \<or> c = 13 \<or> c = 32)"

text \<open>
  An escape sequence after its backslash: the code unit it denotes and the rest.
\<close>

definition decode_escape :: "jsstring \<Rightarrow> (nat \<times> jsstring) option" where
  "decode_escape cs =
    (case cs of
       [] \<Rightarrow> None
     | e # es \<Rightarrow>
         if e = 34 \<or> e = 92 \<or> e = 47 then Some (e, es)
         else if e = 98 then Some (8, es)
         else if e = 102 then Some (12, es)
         else if e = 110 then Some (10, es)
         else if e = 114 then Some (13, es)
         else if e = 116 then Some (9, es)
         else if e = 117 then
           (if length es \<ge> 4 \<and> list_all (is_radix_digit 16) (take 4 es)
            then Some (digits_value 16 (take 4 es), drop 4 es)
            else None)
         else None)"

lemma decode_escape_shorter:
  "decode_escape cs = Some (v, rest) \<Longrightarrow> length rest < length cs"
  by (cases cs) (auto simp: decode_escape_def split: if_splits)

text \<open>
  The body of a string after its opening quote: up to the closing quote, with the
  escapes decoded; a control character or an unknown escape is an error.
\<close>

function lex_string :: "jsstring \<Rightarrow> jsstring \<Rightarrow> (jsstring \<times> jsstring) option" where
  "lex_string acc [] = None"
| "lex_string acc (c # cs) =
    (if c = 34 then Some (rev acc, cs)
     else if c = 92 then
       (case decode_escape cs of
          None \<Rightarrow> None
        | Some (v, rest) \<Rightarrow> lex_string (v # acc) rest)
     else if c < 32 then None
     else lex_string (c # acc) cs)"
  by pat_completeness auto
termination
  by (relation "measure (\<lambda>(acc, cs). length cs)")
     (auto dest: decode_escape_shorter)

lemma lex_string_shorter:
  "lex_string acc cs = Some (s, rest) \<Longrightarrow> length rest < length cs"
proof (induction acc cs rule: lex_string.induct)
  case (1 acc)
  then show ?case by simp
next
  case (2 acc c cs)
  consider (quote) "c = 34" | (esc) "c \<noteq> 34" "c = 92" | (plain) "c \<noteq> 34" "c \<noteq> 92"
    by blast
  then show ?case
  proof cases
    case quote
    with "2.prems" show ?thesis by simp
  next
    case esc
    then obtain v r where d: "decode_escape cs = Some (v, r)"
      and l: "lex_string (v # acc) r = Some (s, rest)"
      using "2.prems" by (auto split: option.splits)
    have "length rest < length r"
      using "2.IH"(1)[OF esc d[symmetric, THEN sym] refl l] .
    moreover have "length r < length cs"
      using d by (rule decode_escape_shorter)
    ultimately show ?thesis by simp
  next
    case plain
    then have ge: "\<not> c < 32" and l: "lex_string (c # acc) cs = Some (s, rest)"
      using "2.prems" by (auto split: if_splits)
    have "length rest < length cs"
      using "2.IH"(2)[OF plain ge l] .
    then show ?thesis by simp
  qed
qed

text \<open>
  A number at the head of the input, part by part:
  \<open>-?(0|[1-9][0-9]*)(\.[0-9]+)?([eE][+-]?[0-9]+)?\<close>.
\<close>

definition minus_sign :: "jsstring \<Rightarrow> bool \<times> jsstring" where
  "minus_sign s = (case s of [] \<Rightarrow> (False, s) | c # t \<Rightarrow> if c = 45 then (True, t) else (False, s))"

definition json_int_part :: "jsstring \<Rightarrow> (jsstring \<times> jsstring) option" where
  "json_int_part s =
    (case s of
       [] \<Rightarrow> None
     | d # t \<Rightarrow>
         if \<not> is_digit d then None
         else if d = 48 then Some ([d], t)
         else Some (d # takeWhile is_digit t, dropWhile is_digit t))"

definition json_frac_part :: "jsstring \<Rightarrow> (jsstring \<times> jsstring) option" where
  "json_frac_part s =
    (case s of
       [] \<Rightarrow> Some ([], s)
     | c # u \<Rightarrow>
         if c = 46 then
           (if takeWhile is_digit u = [] then None
            else Some (takeWhile is_digit u, dropWhile is_digit u))
         else Some ([], s))"

definition lex_number :: "jsstring \<Rightarrow> (rat \<times> jsstring) option" where
  "lex_number s =
    (let (neg, s1) = minus_sign s in
     case json_int_part s1 of
       None \<Rightarrow> None
     | Some (ip, r1) \<Rightarrow>
         (case json_frac_part r1 of
            None \<Rightarrow> None
          | Some (fp, r2) \<Rightarrow>
              (case exponent_part r2 of
                 None \<Rightarrow> None
               | Some (e, r3) \<Rightarrow>
                   let v = scale10 (int (digits_value 10 (ip @ fp))) (e - int (length fp))
                   in Some (if neg then - v else v, r3))))"

lemma minus_sign_shorter: "minus_sign s = (neg, rest) \<Longrightarrow> length rest \<le> length s"
  by (cases s) (auto simp: minus_sign_def split: if_splits)

lemma json_int_part_shorter: "json_int_part s = Some (ip, rest) \<Longrightarrow> length rest < length s"
  by (cases s) (auto simp: json_int_part_def less_Suc_eq_le length_dropWhile_le split: if_splits)

lemma json_frac_part_shorter: "json_frac_part s = Some (fp, rest) \<Longrightarrow> length rest \<le> length s"
  by (cases s) (auto simp: json_frac_part_def le_SucI length_dropWhile_le split: if_splits)

lemma exponent_part_shorter:
  "exponent_part s = Some (e, rest) \<Longrightarrow> length rest \<le> length s"
proof (cases s)
  case Nil
  then show "exponent_part s = Some (e, rest) \<Longrightarrow> length rest \<le> length s"
    by (simp add: exponent_part_def)
next
  case (Cons c t)
  assume a: "exponent_part s = Some (e, rest)"
  show "length rest \<le> length s"
  proof (cases "c = 101 \<or> c = 69")
    case False
    with a Cons show ?thesis by (auto simp: exponent_part_def)
  next
    case True
    obtain sgn u where su: "(case t of [] \<Rightarrow> (1::int, t)
        | d # w \<Rightarrow> if d = 43 then (1, w) else if d = 45 then (- 1, w) else (1, t)) = (sgn, u)"
      by (cases "(case t of [] \<Rightarrow> (1::int, t)
        | d # w \<Rightarrow> if d = 43 then (1, w) else if d = 45 then (- 1, w) else (1, t))") auto
    then have ut: "length u \<le> length t"
      by (cases t) (auto split: if_splits)
    have "rest = dropWhile is_digit u"
      using a Cons True su by (auto simp: exponent_part_def Let_def split: if_splits)
    then have "length rest \<le> length u"
      by (simp add: length_dropWhile_le)
    with ut Cons show ?thesis by simp
  qed
qed

lemma lex_number_shorter:
  assumes "lex_number s = Some (v, rest)"
  shows "length rest < length s"
proof -
  obtain neg s1 where m: "minus_sign s = (neg, s1)"
    by (cases "minus_sign s") auto
  from assms m obtain ip r1 where i: "json_int_part s1 = Some (ip, r1)"
    by (auto simp: lex_number_def split: option.splits)
  from assms m i obtain fp r2 where f: "json_frac_part r1 = Some (fp, r2)"
    by (auto simp: lex_number_def split: option.splits)
  from assms m i f obtain e r3 where x: "exponent_part r2 = Some (e, r3)"
    by (auto simp: lex_number_def split: option.splits)
  from assms m i f x have "rest = r3"
    by (auto simp: lex_number_def Let_def)
  then show ?thesis
    using minus_sign_shorter[OF m] json_int_part_shorter[OF i] json_frac_part_shorter[OF f]
      exponent_part_shorter[OF x]
    by simp
qed

text \<open>The lexer: \<open>None\<close> when the input is not a sequence of JSON tokens.\<close>

function lex :: "jsstring \<Rightarrow> token list option" where
  "lex [] = Some []"
| "lex (c # cs) =
    (if is_json_whitespace c then lex cs
     else if c = 123 then map_option ((#) TLBrace) (lex cs)
     else if c = 125 then map_option ((#) TRBrace) (lex cs)
     else if c = 91 then map_option ((#) TLBrack) (lex cs)
     else if c = 93 then map_option ((#) TRBrack) (lex cs)
     else if c = 58 then map_option ((#) TColon) (lex cs)
     else if c = 44 then map_option ((#) TComma) (lex cs)
     else if c = 34 then
       (case lex_string [] cs of
          None \<Rightarrow> None
        | Some (s, rest) \<Rightarrow> map_option ((#) (TStr s)) (lex rest))
     else if c = 45 \<or> is_digit c then
       (case lex_number (c # cs) of
          None \<Rightarrow> None
        | Some (v, rest) \<Rightarrow> map_option ((#) (TNum v)) (lex rest))
     else if js_startsWith (c # cs) (str ''true'') then map_option ((#) TTrue) (lex (drop 3 cs))
     else if js_startsWith (c # cs) (str ''false'') then map_option ((#) TFalse) (lex (drop 4 cs))
     else if js_startsWith (c # cs) (str ''null'') then map_option ((#) TNull) (lex (drop 3 cs))
     else None)"
  by pat_completeness auto
termination
proof (relation "measure length")
  fix c cs x2 x y
  assume "lex_number (c # cs) = Some x2" "(x, y) = x2"
  then show "(y, c # cs) \<in> measure length"
    using lex_number_shorter[of "c # cs" x y] by simp
qed (auto dest: lex_string_shorter)

text \<open>
  The parser: a stack of the containers still open, and what may come next. An array
  frame holds its elements so far, an object frame its members so far (both in
  reverse), a key frame also the key whose value is awaited.
\<close>

datatype frame =
    FArr "jsvalue list"
  | FObj "(jsstring \<times> jsvalue) list"
  | FKey "(jsstring \<times> jsvalue) list" jsstring

datatype mode =
    MValue | MArrStart | MObjStart | MKey | MColon | MAfter | MDone jsvalue

text \<open>A value is complete: it is the result, or goes into the innermost open container.\<close>

fun push_value :: "jsvalue \<Rightarrow> frame list \<Rightarrow> (mode \<times> frame list) option" where
  "push_value v [] = Some (MDone v, [])"
| "push_value v (FArr vs # st) = Some (MAfter, FArr (v # vs) # st)"
| "push_value v (FKey kvs k # st) = Some (MAfter, FObj ((k, v) # kvs) # st)"
| "push_value v (FObj kvs # st) = None"

fun scalar_of :: "token \<Rightarrow> jsvalue option" where
  "scalar_of (TStr s) = Some (JStr s)"
| "scalar_of (TNum r) = Some (JNum (Num r))"
| "scalar_of TTrue = Some (JBool True)"
| "scalar_of TFalse = Some (JBool False)"
| "scalar_of TNull = Some JNull"
| "scalar_of _ = None"

definition start_value :: "token \<Rightarrow> frame list \<Rightarrow> (mode \<times> frame list) option" where
  "start_value t st =
    (if t = TLBrack then Some (MArrStart, FArr [] # st)
     else if t = TLBrace then Some (MObjStart, FObj [] # st)
     else case scalar_of t of None \<Rightarrow> None | Some v \<Rightarrow> push_value v st)"

fun parse_step :: "mode \<times> frame list \<Rightarrow> token \<Rightarrow> (mode \<times> frame list) option" where
  "parse_step (MValue, st) t = start_value t st"
| "parse_step (MArrStart, st) t =
    (if t = TRBrack then (case st of FArr [] # st' \<Rightarrow> push_value (JArr []) st' | _ \<Rightarrow> None)
     else start_value t st)"
| "parse_step (MObjStart, st) t =
    (case st of
       FObj kvs # st' \<Rightarrow>
         (case t of
            TRBrace \<Rightarrow> push_value (JObj (rev kvs)) st'
          | TStr k \<Rightarrow> Some (MColon, FKey kvs k # st')
          | _ \<Rightarrow> None)
     | _ \<Rightarrow> None)"
| "parse_step (MKey, st) t =
    (case st of
       FObj kvs # st' \<Rightarrow> (case t of TStr k \<Rightarrow> Some (MColon, FKey kvs k # st') | _ \<Rightarrow> None)
     | _ \<Rightarrow> None)"
| "parse_step (MColon, st) t = (if t = TColon then Some (MValue, st) else None)"
| "parse_step (MAfter, st) t =
    (case st of
       FArr vs # st' \<Rightarrow>
         (if t = TComma then Some (MValue, st)
          else if t = TRBrack then push_value (JArr (rev vs)) st'
          else None)
     | FObj kvs # st' \<Rightarrow>
         (if t = TComma then Some (MKey, st)
          else if t = TRBrace then push_value (JObj (rev kvs)) st'
          else None)
     | _ \<Rightarrow> None)"
| "parse_step (MDone v, st) t = None"

fun parse_tokens :: "mode \<times> frame list \<Rightarrow> token list \<Rightarrow> (mode \<times> frame list) option" where
  "parse_tokens ms [] = Some ms"
| "parse_tokens ms (t # ts) =
    (case parse_step ms t of None \<Rightarrow> None | Some ms' \<Rightarrow> parse_tokens ms' ts)"

text \<open>\<open>JSON.parse(text)\<close>: the value, or the \<open>SyntaxError\<close> it throws.\<close>

definition JSON_parse :: "jsstring \<Rightarrow> error + jsvalue" where
  "JSON_parse text =
    (case lex text of
       None \<Rightarrow> Inl SyntaxError
     | Some ts \<Rightarrow>
         (case parse_tokens (MValue, []) ts of
            Some (MDone v, []) \<Rightarrow> Inr v
          | _ \<Rightarrow> Inl SyntaxError))"

section \<open>Response normaliser\<close>

text \<open>
  Sequencing of computations that may throw: the first exception wins.
\<close>

definition bind_err :: "error + 'a \<Rightarrow> ('a \<Rightarrow> error + 'b) \<Rightarrow> error + 'b" where
  "bind_err m f = (case m of Inl e \<Rightarrow> Inl e | Inr x \<Rightarrow> f x)"

text \<open>
  \<open>v.key\<close> for the property names the normaliser reads (\<open>count\<close>, \<open>objects\<close>,
  \<open>aircraft\<close>, \<open>classes\<close>, \<open>countConfidence\<close>, \<open>class\<close>, \<open>class_id\<close>,
  \<open>confidence\<close>), none of which a prototype defines: a \<open>TypeError\<close> on \<open>null\<close>,
  the member of an object (the last one with that key), \<open>undefined\<close> otherwise.
\<close>

definition get_prop :: "jsvalue \<Rightarrow> jsstring \<Rightarrow> error + jsvalue option" where
  "get_prop v key =
    (case v of
       JNull \<Rightarrow> Inl TypeError
     | JObj kvs \<Rightarrow> Inr (map_of (rev kvs) key)
     | _ \<Rightarrow> Inr None)"

text \<open>\<open>xs.map(x => x.key)\<close>.\<close>

fun map_prop :: "jsvalue list \<Rightarrow> jsstring \<Rightarrow> error + jsvalue option list" where
  "map_prop [] key = Inr []"
| "map_prop (x # xs) key =
    bind_err (get_prop x key) (\<lambda>v. bind_err (map_prop xs key) (\<lambda>vs. Inr (v # vs)))"

text \<open>\<open>Array.isArray(v)\<close> and the truthiness of a value.\<close>

fun is_array :: "jsvalue option \<Rightarrow> bool" where
  "is_array (Some (JArr _)) = True"
| "is_array _ = False"

fun truthy :: "jsvalue option \<Rightarrow> bool" where
  "truthy None = False"
| "truthy (Some JNull) = False"
| "truthy (Some (JBool b)) = b"
| "truthy (Some (JNum n)) = (n \<noteq> Num 0 \<and> n \<noteq> NaN)"
| "truthy (Some (JStr s)) = (s \<noteq> [])"
| "truthy (Some (JArr _)) = True"
| "truthy (Some (JObj _)) = True"

text \<open>
  Whether converting a value to a string throws: an object whose own \<open>toString\<close>
  member hides the inherited method cannot be converted (the member is never a
  function), and an array converts its elements.
\<close>

fun to_string_throws :: "jsvalue \<Rightarrow> bool" where
  "to_string_throws (JObj kvs) = (str ''toString'' \<in> set (map fst kvs))"
| "to_string_throws (JArr vs) = list_ex to_string_throws vs"
| "to_string_throws _ = False"

text \<open>
  \<open>Number(v)\<close>. An object becomes \<open>"[object Object]"\<close>, hence \<open>NaN\<close>. An array
  becomes the comma-separated strings of its elements, with \<open>null\<close> as the empty
  string: no element gives the empty string, hence 0; two or more give a string with
  a comma, hence \<open>NaN\<close>; a single element gives its own string, and a number
  printed and read again is itself.
\<close>

fun to_number :: "jsvalue \<Rightarrow> error + jsnum" where
  "to_number JNull = Inr (Num 0)"
| "to_number (JBool b) = Inr (Num (if b then 1 else 0))"
| "to_number (JNum n) = Inr n"
| "to_number (JStr s) = Inr (string_to_number s)"
| "to_number (JObj kvs) = (if to_string_throws (JObj kvs) then Inl TypeError else Inr NaN)"
| "to_number (JArr []) = Inr (Num 0)"
| "to_number (JArr [v]) =
    (if to_string_throws v then Inl TypeError
     else case v of
            JNull \<Rightarrow> Inr (Num 0)
          | JBool b \<Rightarrow> Inr NaN
          | JNum n \<Rightarrow> Inr n
          | JStr s \<Rightarrow> Inr (string_to_number s)
          | JArr ws \<Rightarrow> to_number (JArr ws)
          | JObj kvs \<Rightarrow> Inr NaN)"
| "to_number (JArr (v # w # vs)) =
    (if to_string_throws (JArr (v # w # vs)) then Inl TypeError else Inr NaN)"

text \<open>
  The result of the normaliser (its field \<open>count\<close> is \<open>count'\<close> here, beside the
  \<open>count\<close> of multisets). After the filters a class id or a class confidence is
  a finite number, kept as its value; \<open>countConfidence\<close> is whatever the response
  held under that key.
\<close>

record parsed_response =
  count' :: jsnum
  classes :: "rat list"
  countConfidence :: "jsvalue option"
  classConfidences :: "rat list option"

text \<open>
  \<open>.filter(id => typeof id === 'number' && id >= 0 && id <= 6)\<close> and
  \<open>.filter(conf => typeof conf === 'number' && conf >= 0 && conf <= 1)\<close>: a
  comparison with \<open>NaN\<close> is false, and no infinity passes both bounds.
\<close>

fun number_between :: "rat \<Rightarrow> rat \<Rightarrow> jsvalue option \<Rightarrow> rat option" where
  "number_between lo hi (Some (JNum (Num r))) = (if lo \<le> r \<and> r \<le> hi then Some r else None)"
| "number_between lo hi _ = None"

definition numbers_between :: "rat \<Rightarrow> rat \<Rightarrow> jsvalue option list \<Rightarrow> rat list" where
  "numbers_between lo hi vs = List.map_filter (number_between lo hi) vs"

text \<open>The elements of an array value, as \<open>Array.prototype.filter\<close> visits them.\<close>

fun elements :: "jsvalue option \<Rightarrow> jsvalue list" where
  "elements (Some (JArr vs)) = vs"
| "elements _ = []"

text \<open>
  \<open>s.replace(/^```json\s*/, '')\<close> or \<open>s.replace(/^```\s*/, '')\<close> (the prefix is passed),
  and \<open>s.replace(/\s*```$/, '')\<close>: the closing fence at the very end of the string goes
  with the white space before it.
\<close>

definition strip_fence_start :: "jsstring \<Rightarrow> jsstring \<Rightarrow> jsstring" where
  "strip_fence_start fence s =
    (if js_startsWith s fence then dropWhile is_js_whitespace (drop (length fence) s) else s)"

definition strip_fence_end :: "jsstring \<Rightarrow> jsstring" where
  "strip_fence_end s =
    (if take 3 (rev s) = str ''```'' then rev (dropWhile is_js_whitespace (drop 3 (rev s)))
     else s)"

text \<open>
  \<open>s.match(/\{[\s\S]*\}/)\<close>: from the first opening brace to the last closing brace
  after it, or \<open>null\<close>.
\<close>

definition match_braces :: "jsstring \<Rightarrow> jsstring option" where
  "match_braces s =
    (let t = dropWhile (\<lambda>c. c \<noteq> 123) s;
         u = rev (dropWhile (\<lambda>c. c \<noteq> 125) (rev t))
     in if u = [] then None else Some u)"

text \<open>
  The cleaning of the response before \<open>JSON.parse\<close>: the text is trimmed and its
  code fence stripped; then, whenever the brace pattern matches, the match replaces the
  text.
\<close>

definition strip_fences :: "jsstring \<Rightarrow> jsstring" where
  "strip_fences response =
    (let cleanResponse = js_trim response
     in if js_startsWith cleanResponse (str ''```json'')
        then strip_fence_end (strip_fence_start (str ''```json'') cleanResponse)
        else if js_startsWith cleanResponse (str ''```'')
        then strip_fence_end (strip_fence_start (str ''```'') cleanResponse)
        else cleanResponse)"

definition clean_response :: "jsstring \<Rightarrow> jsstring" where
  "clean_response response =
    (let cleanResponse = strip_fences response
     in case match_braces cleanResponse of
          Some jsonMatch \<Rightarrow> jsonMatch
        | None \<Rightarrow> cleanResponse)"

text \<open>
  The shapes of a parsed response, in the order the code tries them. The last one is
  the fallback: \<open>parsed.classes || parsed.objects?.map(..) || parsed.aircraft?.map(..) || []\<close>,
  where \<open>x?.map\<close> is skipped for \<open>undefined\<close> and \<open>null\<close>, maps an array, and is
  a \<open>TypeError\<close> on anything else (there is no \<open>map\<close> to call).
\<close>

definition optional_map_prop :: "jsvalue option \<Rightarrow> jsstring \<Rightarrow> error + jsvalue option list option" where
  "optional_map_prop v key =
    (case v of
       None \<Rightarrow> Inr None
     | Some JNull \<Rightarrow> Inr None
     | Some (JArr xs) \<Rightarrow> bind_err (map_prop xs key) (\<lambda>vs. Inr (Some vs))
     | Some _ \<Rightarrow> Inl TypeError)"

definition objects_shape :: "jsvalue \<Rightarrow> jsvalue list \<Rightarrow> jsvalue option \<Rightarrow> error + parsed_response" where
  "objects_shape p_count objects p_countConfidence =
    bind_err (map_prop objects (str ''class'')) (\<lambda>cs.
    bind_err (map_prop objects (str ''confidence'')) (\<lambda>fs.
    bind_err (to_number p_count) (\<lambda>n.
      let class_ids = numbers_between 0 6 cs;
          confidences = numbers_between 0 1 fs
      in Inr \<lparr>count' = n, classes = class_ids, countConfidence = p_countConfidence,
               classConfidences =
                 (if length confidences > 0 then Some confidences else None)\<rparr>)))"

definition aircraft_shape :: "jsvalue \<Rightarrow> jsvalue list \<Rightarrow> jsvalue option \<Rightarrow> error + parsed_response" where
  "aircraft_shape p_count aircraft p_countConfidence =
    bind_err (map_prop aircraft (str ''class_id'')) (\<lambda>cs.
    bind_err (to_number p_count) (\<lambda>n.
      Inr \<lparr>count' = n, classes = numbers_between 0 6 cs,
            countConfidence = p_countConfidence, classConfidences = None\<rparr>))"

definition classes_shape :: "jsvalue \<Rightarrow> jsvalue list \<Rightarrow> jsvalue option \<Rightarrow> error + parsed_response" where
  "classes_shape p_count class_values p_countConfidence =
    bind_err (to_number p_count) (\<lambda>n.
      Inr \<lparr>count' = n, classes = numbers_between 0 6 (map Some class_values),
            countConfidence = p_countConfidence, classConfidences = None\<rparr>)"

definition fallback_classes ::
  "jsvalue option \<Rightarrow> jsvalue option \<Rightarrow> jsvalue option \<Rightarrow> error + jsvalue option list" where
  "fallback_classes p_classes p_objects p_aircraft =
    (if truthy p_classes then Inr (map Some (elements p_classes))
     else
       bind_err (optional_map_prop p_objects (str ''class'')) (\<lambda>from_objects.
         case from_objects of
           Some vs \<Rightarrow> Inr vs
         | None \<Rightarrow>
             bind_err (optional_map_prop p_aircraft (str ''class_id'')) (\<lambda>from_aircraft.
               case from_aircraft of
                 Some vs \<Rightarrow> Inr vs
               | None \<Rightarrow> Inr [])))"

definition fallback_shape ::
  "jsvalue option \<Rightarrow> jsvalue option \<Rightarrow> jsvalue option \<Rightarrow> jsvalue option \<Rightarrow> jsvalue option
     \<Rightarrow> error + parsed_response" where
  "fallback_shape p_count p_classes p_objects p_aircraft p_countConfidence =
    bind_err (case p_count of Some c \<Rightarrow> to_number c | None \<Rightarrow> Inr (Num 0)) (\<lambda>n.
    bind_err (fallback_classes p_classes p_objects p_aircraft) (\<lambda>class_values.
      Inr \<lparr>count' = n, classes = numbers_between 0 6 class_values,
            countConfidence = p_countConfidence, classConfidences = None\<rparr>))"

definition shape_of_parsed :: "jsvalue \<Rightarrow> error + parsed_response" where
  "shape_of_parsed parsed =
    bind_err (get_prop parsed (str ''count'')) (\<lambda>p_count.
    bind_err (get_prop parsed (str ''objects'')) (\<lambda>p_objects.
    bind_err (get_prop parsed (str ''aircraft'')) (\<lambda>p_aircraft.
    bind_err (get_prop parsed (str ''classes'')) (\<lambda>p_classes.
    bind_err (get_prop parsed (str ''countConfidence'')) (\<lambda>p_countConfidence.
      case p_count of
        Some c \<Rightarrow>
          if is_array p_objects then objects_shape c (elements p_objects) p_countConfidence
          else if is_array p_aircraft then aircraft_shape c (elements p_aircraft) p_countConfidence
          else if is_array p_classes then classes_shape c (elements p_classes) p_countConfidence
          else fallback_shape p_count p_classes p_objects p_aircraft p_countConfidence
      | None \<Rightarrow> fallback_shape p_count p_classes p_objects p_aircraft p_countConfidence)))))"

text \<open>The body of the \<open>try\<close> block: clean, parse, recognise a shape.\<close>

definition json_extraction :: "jsstring \<Rightarrow> error + parsed_response" where
  "json_extraction response = bind_err (JSON_parse (clean_response response)) shape_of_parsed"

text \<open>
  The \<open>catch\<close> block works on the raw response.
  \<open>response.match(/(?:count|aircraft|planes?)[\s:]*(\d+)/i)\<close>: at the leftmost
  position where a keyword stands (letters compared without case), followed by any
  white space and colons and then a digit, the group is the run of digits.
\<close>

definition lower_ascii :: "nat \<Rightarrow> nat" where
  "lower_ascii c = (if 65 \<le> c \<and> c \<le> 90 then c + 32 else c)"

definition digits_after_keyword :: "jsstring \<Rightarrow> jsstring \<Rightarrow> jsstring option" where
  "digits_after_keyword keyword s =
    (if map lower_ascii (take (length keyword) s) = keyword then
       (let r = dropWhile (\<lambda>c. is_js_whitespace c \<or> c = 58) (drop (length keyword) s);
            ds = takeWhile is_digit r
        in if ds = [] then None else Some ds)
     else None)"

definition count_match_at :: "jsstring \<Rightarrow> jsstring option" where
  "count_match_at s =
    (case digits_after_keyword (str ''count'') s of
       Some ds \<Rightarrow> Some ds
     | None \<Rightarrow>
         (case digits_after_keyword (str ''aircraft'') s of
            Some ds \<Rightarrow> Some ds
          | None \<Rightarrow>
              (case digits_after_keyword (str ''planes'') s of
                 Some ds \<Rightarrow> Some ds
               | None \<Rightarrow> digits_after_keyword (str ''plane'') s)))"

fun count_match :: "jsstring \<Rightarrow> jsstring option" where
  "count_match [] = None"
| "count_match (c # cs) =
    (case count_match_at (c # cs) of Some ds \<Rightarrow> Some ds | None \<Rightarrow> count_match cs)"

text \<open>
  \<open>response.match(/\b(\d{1,2})\b/g)\<close>: every run of one or two digits that has no
  word character on either side, from left to right; the flag tells whether the
  character before the current position is a word character.
\<close>

fun class_matches :: "bool \<Rightarrow> jsstring \<Rightarrow> jsstring list" where
  "class_matches prev_word [] = []"
| "class_matches prev_word [c] = (if \<not> prev_word \<and> is_digit c then [[c]] else [])"
| "class_matches prev_word (c # d # ds) =
    (if \<not> prev_word \<and> is_digit c then
       (if \<not> is_word_char d then [c] # class_matches True (d # ds)
        else if is_digit d \<and> (case ds of [] \<Rightarrow> True | e # es \<Rightarrow> \<not> is_word_char e)
        then [c, d] # class_matches True ds
        else class_matches True (d # ds))
     else class_matches (is_word_char c) (d # ds))"

definition text_extraction :: "jsstring \<Rightarrow> parsed_response" where
  "text_extraction response =
    (let countMatch = count_match response;
         classMatches = class_matches False response
     in \<lparr>count' = (case countMatch of
                     Some ds \<Rightarrow> Num (of_nat (digits_value 10 ds))
                   | None \<Rightarrow> Num 0),
         classes = (if classMatches \<noteq> []
                    then filter (\<lambda>n. 0 \<le> n \<and> n \<le> 6)
                           (map (\<lambda>m. of_nat (digits_value 10 m)) classMatches)
                    else []),
         countConfidence = None,
         classConfidences = None\<rparr>)"

text \<open>
  \<open>parseLLMResponse(response)\<close>: the \<open>try\<close> block, and the \<open>catch\<close> block on any
  exception. The result is \<open>Inr\<close> of the structure returned, \<open>Inl\<close> of an exception
  that leaves the function.
\<close>

definition parseLLMResponse :: "jsstring \<Rightarrow> error + parsed_response" where
  "parseLLMResponse response =
    (case json_extraction response of
       Inr result \<Rightarrow> Inr result
     | Inl e \<Rightarrow> Inr (text_extraction response))"

text \<open>What a result of the normaliser is made of, whatever the path that built it.\<close>

definition filtered_result :: "parsed_response \<Rightarrow> bool" where
  "filtered_result r =
    ((\<exists>vs. classes r = numbers_between 0 6 vs)
     \<and> (case classConfidences r of
          None \<Rightarrow> True
        | Some cs \<Rightarrow> cs \<noteq> [] \<and> (\<exists>fs. cs = numbers_between 0 1 fs)))"

section \<open>More built-ins: splitting, joining, numbers and strings\<close>

text \<open>
  \<open>s.split(c)\<close> for a one-character separator, \<open>xs.join(sep)\<close>, \<open>xs.indexOf(x)\<close>
  and \<open>s.replace(c, '')\<close> for a one-character string pattern (the first occurrence
  only).
\<close>

fun split_on :: "nat \<Rightarrow> jsstring \<Rightarrow> jsstring list" where
  "split_on c [] = [[]]"
| "split_on c (x # xs) =
    (if x = c then [] # split_on c xs
     else case split_on c xs of
            [] \<Rightarrow> [[x]]
          | y # ys \<Rightarrow> (x # y) # ys)"

fun join_with :: "jsstring \<Rightarrow> jsstring list \<Rightarrow> jsstring" where
  "join_with sep [] = []"
| "join_with sep [x] = x"
| "join_with sep (x # y # ys) = x @ sep @ join_with sep (y # ys)"

fun index_of :: "'a \<Rightarrow> 'a list \<Rightarrow> nat option" where
  "index_of x [] = None"
| "index_of x (y # ys) = (if x = y then Some 0 else map_option Suc (index_of x ys))"

fun remove_first :: "nat \<Rightarrow> jsstring \<Rightarrow> jsstring" where
  "remove_first c [] = []"
| "remove_first c (x # xs) = (if x = c then xs else x # remove_first c xs)"

text \<open>\<open>a * b\<close> on numbers.\<close>

fun js_mul :: "jsnum \<Rightarrow> jsnum \<Rightarrow> jsnum" where
  "js_mul NaN _ = NaN"
| "js_mul _ NaN = NaN"
| "js_mul (Num a) (Num b) = Num (a * b)"
| "js_mul (Num a) PosInf = (if a = 0 then NaN else if 0 < a then PosInf else NegInf)"
| "js_mul (Num a) NegInf = (if a = 0 then NaN else if 0 < a then NegInf else PosInf)"
| "js_mul PosInf (Num b) = (if b = 0 then NaN else if 0 < b then PosInf else NegInf)"
| "js_mul NegInf (Num b) = (if b = 0 then NaN else if 0 < b then NegInf else PosInf)"
| "js_mul PosInf PosInf = PosInf"
| "js_mul NegInf NegInf = PosInf"
| "js_mul _ _ = NegInf"

text \<open>The decimal digits of a natural number.\<close>

fun nat_digits :: "nat \<Rightarrow> jsstring" where
  "nat_digits n = (if n < 10 then [48 + n] else nat_digits (n div 10) @ [48 + n mod 10])"

declare nat_digits.simps [simp del]

text \<open>
  The string of a number. Below \<open>10^21\<close> in magnitude an integer is printed in
  decimal. From \<open>10^21\<close> on the language prints a finite number in exponent notation,
  with the shortest digits that read back as the same double; an exact model cannot
  say which, so that conversion is the parameter \<open>expo\<close>, and everything proved
  below holds for every such function.
\<close>

definition int_to_string :: "(rat \<Rightarrow> jsstring) \<Rightarrow> int \<Rightarrow> jsstring" where
  "int_to_string expo n =
    (if \<bar>n\<bar> < 10 ^ 21 then (if n < 0 then [45] else []) @ nat_digits (nat \<bar>n\<bar>)
     else expo (of_int n))"

text \<open>
  \<open>x.toFixed(f)\<close>: the integer \<open>n\<close> with \<open>n / 10^f\<close> nearest to \<open>x\<close> (the larger
  one of two), printed with \<open>f\<close> digits after the point.
\<close>

definition fixed_digits :: "nat \<Rightarrow> rat \<Rightarrow> jsstring" where
  "fixed_digits f x =
    (let n = nat \<lfloor>x * 10 ^ f + 1 / 2\<rfloor>;
         m = nat_digits n;
         m = replicate (f + 1 - length m) 48 @ m
     in if f = 0 then m
        else take (length m - f) m @ [46] @ drop (length m - f) m)"

definition toFixed :: "(rat \<Rightarrow> jsstring) \<Rightarrow> nat \<Rightarrow> jsnum \<Rightarrow> jsstring" where
  "toFixed expo f x =
    (case x of
       NaN \<Rightarrow> str ''NaN''
     | PosInf \<Rightarrow> str ''Infinity''
     | NegInf \<Rightarrow> str ''-Infinity''
     | Num r \<Rightarrow>
         if \<bar>r\<bar> \<ge> 10 ^ 21 then expo r
         else if r < 0 then [45] @ fixed_digits f (- r)
         else fixed_digits f r)"

text \<open>
  \<open>parseInt(s)\<close> without a radix: leading white space and a sign are skipped, a
  \<open>0x\<close> prefix selects radix 16, the digits that follow are read, and no digit at
  all is \<open>NaN\<close> (here \<open>None\<close>).
\<close>

definition parseInt :: "jsstring \<Rightarrow> int option" where
  "parseInt s =
    (let t = js_trim_start s;
         (sgn, u) = (case t of
                       [] \<Rightarrow> (1, t)
                     | c # w \<Rightarrow> if c = 45 then (- 1, w) else if c = 43 then (1, w) else (1, t));
         (radix, v) = (if js_startsWith u (str ''0x'') \<or> js_startsWith u (str ''0X'')
                       then (16, drop 2 u) else (10, u));
         z = takeWhile (is_radix_digit radix) v
     in if z = [] then None else Some (sgn * int (digits_value radix z)))"

text \<open>
  \<open>parseFloat(s)\<close>: leading white space is skipped and the longest prefix that is a
  decimal literal is read; none is \<open>NaN\<close>.
\<close>

definition parseFloat :: "jsstring \<Rightarrow> jsnum" where
  "parseFloat s =
    (let t = js_trim_start s;
         (neg, u) = (case t of
                       [] \<Rightarrow> (False, t)
                     | c # w \<Rightarrow> if c = 45 then (True, w) else if c = 43 then (False, w)
                                else (False, t))
     in if js_startsWith u (str ''Infinity'') then (if neg then NegInf else PosInf)
        else case decimal_prefix u of
               None \<Rightarrow> NaN
             | Some (v, rest) \<Rightarrow> Num (if neg then - v else v))"

section \<open>Run serialiser: export\<close>

definition csv_headers :: "jsstring list" where
  "csv_headers =
    [str ''Image ID'', str ''Filename'', str ''Subset'', str ''Actual Objects'',
     str ''Actual Classes'', str ''Actual Class Names'', str ''Predicted Objects'',
     str ''Predicted Classes'', str ''Predicted Class Names'', str ''Count Accuracy'',
     str ''Class Accuracy'', str ''Count Confidence'', str ''Class Confidence'', str ''Cost'',
     str ''API Duration (ms)'', str ''Image Width'', str ''Image Height'', str ''Status'',
     str ''LLM Response'']"

text \<open>\<open>(x * 100).toFixed(1) + '%'\<close>.\<close>

definition percent :: "(rat \<Rightarrow> jsstring) \<Rightarrow> jsnum \<Rightarrow> jsstring" where
  "percent expo x = toFixed expo 1 (js_mul x (Num 100)) @ [37]"

text \<open>\<open>n || ''\<close> for an optional integer, as a cell.\<close>

definition int_or_empty :: "(rat \<Rightarrow> jsstring) \<Rightarrow> int option \<Rightarrow> jsstring" where
  "int_or_empty expo n =
    (case n of None \<Rightarrow> [] | Some k \<Rightarrow> if k = 0 then [] else int_to_string expo k)"

text \<open>
  The cells of one image. The count confidence is multiplied as it is, which converts
  it to a number first and may throw.
\<close>

definition export_row :: "(rat \<Rightarrow> jsstring) \<Rightarrow> EvaluationImage \<Rightarrow> error + jsstring list" where
  "export_row expo img =
    bind_err
      (if truthy (predictedCountConfidence img)
       then bind_err (to_number (the (predictedCountConfidence img))) (\<lambda>n. Inr (percent expo n))
       else Inr [])
      (\<lambda>countConfidenceCell. Inr
        [id img,
         filename img,
         subset img,
         int_to_string expo (actualObjects img),
         join_with [59] (map (int_to_string expo) (actualClasses img)),
         join_with [59] (actualClassNames img),
         int_or_empty expo (predictedObjects img),
         join_with [59] (map (int_to_string expo)
                           (case predictedClasses img of None \<Rightarrow> [] | Some cs \<Rightarrow> cs)),
         join_with [59] (case predictedClassNames img of None \<Rightarrow> [] | Some ns \<Rightarrow> ns),
         (case score img of None \<Rightarrow> [] | Some sc \<Rightarrow> percent expo (countAccuracy sc)),
         (case score img of None \<Rightarrow> [] | Some sc \<Rightarrow> percent expo (classAccuracy sc)),
         countConfidenceCell,
         (case predictedClassConfidences img of
            None \<Rightarrow> []
          | Some cs \<Rightarrow> join_with [59] (map (percent expo) cs)),
         (case cost img of
            None \<Rightarrow> []
          | Some c \<Rightarrow> if c = Num 0 \<or> c = NaN then [] else [36] @ toFixed expo 4 c),
         int_or_empty expo (apiDuration img),
         int_or_empty expo (imageWidth img),
         int_or_empty expo (imageHeight img),
         status img,
         map (\<lambda>c. if c = 44 then 59 else c)
           (map (\<lambda>c. if c = 10 then 32 else c)
              (case llmResponse img of None \<Rightarrow> [] | Some s \<Rightarrow> s))])"

fun export_rows :: "(rat \<Rightarrow> jsstring) \<Rightarrow> EvaluationImage list \<Rightarrow> error + jsstring list list" where
  "export_rows expo [] = Inr []"
| "export_rows expo (img # imgs) =
    bind_err (export_row expo img) (\<lambda>row.
    bind_err (export_rows expo imgs) (\<lambda>rows. Inr (row # rows)))"

text \<open>\<open>row.map(field => `"${field}"`).join(',')\<close>.\<close>

definition csv_line :: "jsstring list \<Rightarrow> jsstring" where
  "csv_line row = join_with [44] (map (\<lambda>field. [34] @ field @ [34]) row)"

definition exportToCSV :: "(rat \<Rightarrow> jsstring) \<Rightarrow> EvaluationResult \<Rightarrow> error + jsstring" where
  "exportToCSV expo result =
    bind_err (export_rows expo (images result)) (\<lambda>rows.
      Inr (join_with [10] (map csv_line (csv_headers # rows))))"

section \<open>Run serialiser: import\<close>

text \<open>
  \<open>parseCSVRow(row)\<close>: the loop over the characters, with the fields so far, the
  current field and the quote state. Two quotes in a row inside quotes are one quote
  (the loop skips the second); any other quote toggles the state; a comma outside
  quotes ends the field. Every field is trimmed.
\<close>

fun parseCSVRow_loop :: "jsstring list \<Rightarrow> jsstring \<Rightarrow> bool \<Rightarrow> jsstring \<Rightarrow> jsstring list" where
  "parseCSVRow_loop row_fields current inQuotes [] = row_fields @ [js_trim current]"
| "parseCSVRow_loop row_fields current inQuotes [c] =
    (if c = 34 then parseCSVRow_loop row_fields current (\<not> inQuotes) []
     else if c = 44 \<and> \<not> inQuotes then parseCSVRow_loop (row_fields @ [js_trim current]) [] inQuotes []
     else parseCSVRow_loop row_fields (current @ [c]) inQuotes [])"
| "parseCSVRow_loop row_fields current inQuotes (c # d # cs) =
    (if c = 34 then
       (if inQuotes \<and> d = 34 then parseCSVRow_loop row_fields (current @ [34]) inQuotes cs
        else parseCSVRow_loop row_fields current (\<not> inQuotes) (d # cs))
     else if c = 44 \<and> \<not> inQuotes
     then parseCSVRow_loop (row_fields @ [js_trim current]) [] inQuotes (d # cs)
     else parseCSVRow_loop row_fields (current @ [c]) inQuotes (d # cs))"

definition parseCSVRow :: "jsstring \<Rightarrow> jsstring list" where
  "parseCSVRow row = parseCSVRow_loop [] [] False row"

definition requiredHeaders :: "jsstring list" where
  "requiredHeaders =
    [str ''Image ID'', str ''Filename'', str ''Subset'', str ''Actual Objects'',
     str ''Actual Classes'', str ''Actual Class Names'', str ''Predicted Objects'',
     str ''Predicted Classes'', str ''Predicted Class Names'', str ''Count Accuracy'',
     str ''Class Accuracy'', str ''Cost'', str ''API Duration (ms)'', str ''Image Width'',
     str ''Image Height'', str ''Status'', str ''LLM Response'']"

text \<open>\<open>lines[0].split(',').map(h => h.replace(/"/g, '').trim())\<close>.\<close>

definition parse_header_line :: "jsstring \<Rightarrow> jsstring list" where
  "parse_header_line line = map (\<lambda>h. js_trim (filter (\<lambda>c. c \<noteq> 34) h)) (split_on 44 line)"

text \<open>
  \<open>getField(headerName)\<close>: the field at the first index of the header, the empty
  string for a header that is not there. It is called on rows that have at least as
  many fields as there are headers, so the index is in range (the last case is not
  reached).
\<close>

definition getField :: "jsstring list \<Rightarrow> jsstring list \<Rightarrow> jsstring \<Rightarrow> jsstring" where
  "getField headers row_fields headerName =
    (case index_of headerName headers of
       None \<Rightarrow> []
     | Some i \<Rightarrow> if i < length row_fields then row_fields ! i else [])"

text \<open>
  \<open>s ? s.split(';').map(c => parseInt(c.trim())).filter(c => !isNaN(c)) : []\<close> and
  \<open>parseInt(s) || 0\<close>.
\<close>

definition parse_class_list :: "jsstring \<Rightarrow> int list" where
  "parse_class_list s =
    (if s \<noteq> [] then List.map_filter (\<lambda>c. parseInt (js_trim c)) (split_on 59 s) else [])"

definition parse_int_or_zero :: "jsstring \<Rightarrow> int" where
  "parse_int_or_zero s = (case parseInt s of None \<Rightarrow> 0 | Some n \<Rightarrow> n)"

text \<open>\<open>parseInt(s) || undefined\<close>.\<close>

definition parse_int_or_undefined :: "jsstring \<Rightarrow> int option" where
  "parse_int_or_undefined s =
    (case parseInt s of None \<Rightarrow> None | Some n \<Rightarrow> if n = 0 then None else Some n)"

text \<open>\<open>s.replace(/\.jpg$/i, '')\<close>.\<close>

definition strip_jpg :: "jsstring \<Rightarrow> jsstring" where
  "strip_jpg s =
    (if length s \<ge> 4 \<and> map lower_ascii (drop (length s - 4) s) = str ''.jpg''
     then take (length s - 4) s else s)"

text \<open>
  The repair of a stored response before it is parsed, one \<open>replace\<close> after the
  other. \<open>/(\w+):/g\<close> puts quotes around every run of word characters that a colon
  follows.
\<close>

fun quote_property_names :: "jsstring \<Rightarrow> jsstring \<Rightarrow> jsstring" where
  "quote_property_names run [] = rev run"
| "quote_property_names run (c # cs) =
    (if is_word_char c then quote_property_names (c # run) cs
     else if c = 58 \<and> run \<noteq> [] then [34] @ rev run @ [34, 58] @ quote_property_names [] cs
     else rev run @ [c] @ quote_property_names [] cs)"

text \<open>
  \<open>/:\s*([A-Za-z][A-Za-z\s]*[A-Za-z])([,}])/g\<close> with \<open>': "$1"$2'\<close>: after a colon and
  white space, a run of letters and white space that has at least two characters,
  ends in a letter and is followed by a comma or a closing brace. The match, as
  group, delimiter and rest.
\<close>

definition is_letter :: "nat \<Rightarrow> bool" where
  "is_letter c = ((65 \<le> c \<and> c \<le> 90) \<or> (97 \<le> c \<and> c \<le> 122))"

definition word_value_match :: "jsstring \<Rightarrow> (jsstring \<times> nat \<times> jsstring) option" where
  "word_value_match cs =
    (let t = dropWhile is_js_whitespace cs;
         g = takeWhile (\<lambda>c. is_letter c \<or> is_js_whitespace c) t;
         r = dropWhile (\<lambda>c. is_letter c \<or> is_js_whitespace c) t
     in case r of
          [] \<Rightarrow> None
        | d # rest \<Rightarrow>
            if length g \<ge> 2 \<and> is_letter (last g) \<and> (d = 44 \<or> d = 125)
            then Some (g, d, rest) else None)"

lemma word_value_match_shorter:
  "word_value_match cs = Some (g, d, rest) \<Longrightarrow> length rest < length cs"
proof -
  assume a: "word_value_match cs = Some (g, d, rest)"
  let ?t = "dropWhile is_js_whitespace cs"
  let ?r = "dropWhile (\<lambda>c. is_letter c \<or> is_js_whitespace c) ?t"
  from a have "?r = d # rest"
    by (auto simp: word_value_match_def Let_def split: list.splits if_splits)
  then have "length rest < length ?r" by simp
  also have "\<dots> \<le> length ?t" by (rule length_dropWhile_le)
  also have "\<dots> \<le> length cs" by (rule length_dropWhile_le)
  finally show ?thesis .
qed

function quote_word_values :: "jsstring \<Rightarrow> jsstring" where
  "quote_word_values [] = []"
| "quote_word_values (c # cs) =
    (if c = 58 then
       (case word_value_match cs of
          Some (g, d, rest) \<Rightarrow> [58, 32, 34] @ g @ [34, d] @ quote_word_values rest
        | None \<Rightarrow> c # quote_word_values cs)
     else c # quote_word_values cs)"
  by pat_completeness auto
termination
  by (relation "measure length") (auto dest: word_value_match_shorter)

text \<open>
  \<open>/:\s*(\d+\.?\d*)([,}])/g\<close> with \<open>': $1$2'\<close>: after a colon and white space,
  digits, an optional point and more digits, followed by a comma or a closing brace.
\<close>

definition optional_point :: "jsstring \<Rightarrow> jsstring \<times> jsstring" where
  "optional_point s = (case s of [] \<Rightarrow> ([], s) | c # u \<Rightarrow> if c = 46 then ([c], u) else ([], s))"

definition number_value_match :: "jsstring \<Rightarrow> (jsstring \<times> nat \<times> jsstring) option" where
  "number_value_match cs =
    (let t = dropWhile is_js_whitespace cs;
         d1 = takeWhile is_digit t;
         (p, r2) = optional_point (dropWhile is_digit t);
         d2 = takeWhile is_digit r2
     in case dropWhile is_digit r2 of
          [] \<Rightarrow> None
        | d # rest \<Rightarrow>
            if d1 \<noteq> [] \<and> (d = 44 \<or> d = 125) then Some (d1 @ p @ d2, d, rest) else None)"

lemma optional_point_shorter: "optional_point s = (p, r) \<Longrightarrow> length r \<le> length s"
  by (cases s) (auto simp: optional_point_def split: if_splits)

lemma number_value_match_shorter:
  assumes a: "number_value_match cs = Some (g, d, rest)"
  shows "length rest < length cs"
proof -
  let ?t = "dropWhile is_js_whitespace cs"
  obtain p r2 where pr: "optional_point (dropWhile is_digit ?t) = (p, r2)"
    by (cases "optional_point (dropWhile is_digit ?t)") auto
  from a pr have "dropWhile is_digit r2 = d # rest"
    by (auto simp: number_value_match_def Let_def split: list.splits if_splits)
  then have "length rest < length (dropWhile is_digit r2)" by simp
  also have "\<dots> \<le> length r2" by (rule length_dropWhile_le)
  also have "\<dots> \<le> length (dropWhile is_digit ?t)" by (rule optional_point_shorter[OF pr])
  also have "\<dots> \<le> length ?t" by (rule length_dropWhile_le)
  also have "\<dots> \<le> length cs" by (rule length_dropWhile_le)
  finally show ?thesis .
qed

function respace_number_values :: "jsstring \<Rightarrow> jsstring" where
  "respace_number_values [] = []"
| "respace_number_values (c # cs) =
    (if c = 58 then
       (case number_value_match cs of
          Some (g, d, rest) \<Rightarrow> [58, 32] @ g @ [d] @ respace_number_values rest
        | None \<Rightarrow> c # respace_number_values cs)
     else c # respace_number_values cs)"
  by pat_completeness auto
termination
  by (relation "measure length") (auto dest: number_value_match_shorter)

definition repair_response :: "jsstring \<Rightarrow> jsstring" where
  "repair_response response_text =
    (let cleanedResponse = strip_fences response_text;
         cleanedResponse = map (\<lambda>c. if c = 59 then 44 else c) cleanedResponse;
         cleanedResponse = quote_property_names [] cleanedResponse;
         cleanedResponse = quote_word_values cleanedResponse
     in respace_number_values cleanedResponse)"

text \<open>\<open>.filter(conf => typeof conf === 'number')\<close>.\<close>

fun numbers_of :: "jsvalue option list \<Rightarrow> jsnum list" where
  "numbers_of [] = []"
| "numbers_of (Some (JNum n) # vs) = n # numbers_of vs"
| "numbers_of (_ # vs) = numbers_of vs"

text \<open>
  The inner \<open>try\<close> block: when a confidence column is missing, the confidences are
  looked for in the stored response. An exception ends the block; what was assigned
  before it stays.
\<close>

definition confidences_from_response ::
  "bool \<Rightarrow> bool \<Rightarrow> jsstring \<Rightarrow> jsvalue option \<times> jsnum list option
     \<Rightarrow> jsvalue option \<times> jsnum list option" where
  "confidences_from_response hasCountConfidence hasClassConfidence response_text previous =
    (case JSON_parse (repair_response response_text) of
       Inl e \<Rightarrow> previous
     | Inr parsed \<Rightarrow>
         (case (if \<not> hasCountConfidence
                then bind_err (get_prop parsed (str ''countConfidence'')) (\<lambda>p_countConfidence.
                       Inr (if p_countConfidence \<noteq> None then p_countConfidence else fst previous))
                else Inr (fst previous)) of
            Inl e \<Rightarrow> previous
          | Inr countConfidence' \<Rightarrow>
              if \<not> hasClassConfidence then
                (case get_prop parsed (str ''objects'') of
                   Inl e \<Rightarrow> (countConfidence', snd previous)
                 | Inr p_objects \<Rightarrow>
                     if truthy p_objects \<and> is_array p_objects then
                       (case map_prop (elements p_objects) (str ''confidence'') of
                          Inl e \<Rightarrow> (countConfidence', snd previous)
                        | Inr vs \<Rightarrow> (countConfidence', Some (numbers_of vs)))
                     else (countConfidence', snd previous))
              else (countConfidence', snd previous)))"

text \<open>The confidences of a row: from the columns that exist, else from the response.\<close>

definition row_confidences ::
  "bool \<Rightarrow> bool \<Rightarrow> (jsstring \<Rightarrow> jsstring) \<Rightarrow> jsvalue option \<times> jsnum list option" where
  "row_confidences hasCountConfidence hasClassConfidence field =
    (let countConfidence' =
           (if hasCountConfidence \<and> field (str ''Count Confidence'') \<noteq> []
            then Some (JNum (js_div (parseFloat (remove_first 37 (field (str ''Count Confidence''))))
                                   (Num 100)))
            else None);
         classConfidences' =
           (if hasClassConfidence \<and> field (str ''Class Confidence'') \<noteq> []
            then Some (filter (\<lambda>c. c \<noteq> NaN)
                         (map (\<lambda>c. js_div (parseFloat (remove_first 37 c)) (Num 100))
                            (split_on 59 (field (str ''Class Confidence'')))))
            else None)
     in if (\<not> hasCountConfidence \<or> \<not> hasClassConfidence) \<and> field (str ''LLM Response'') \<noteq> []
        then confidences_from_response hasCountConfidence hasClassConfidence
               (field (str ''LLM Response'')) (countConfidence', classConfidences')
        else (countConfidence', classConfidences'))"

text \<open>
  The image of one data row. The score is computed here, from the counts and class
  lists just parsed.
\<close>

definition row_image :: "jsstring list \<Rightarrow> bool \<Rightarrow> bool \<Rightarrow> jsstring list \<Rightarrow> EvaluationImage" where
  "row_image headers hasCountConfidence hasClassConfidence row_fields =
    (let field = getField headers row_fields;
         actualClasses' = parse_class_list (field (str ''Actual Classes''));
         predictedClasses' = parse_class_list (field (str ''Predicted Classes''));
         actualCount = parse_int_or_zero (field (str ''Actual Objects''));
         predictedCount = parse_int_or_zero (field (str ''Predicted Objects''));
         scores = calculateImageScore (Num (of_int actualCount)) actualClasses'
                    (Num (of_int predictedCount)) predictedClasses';
         costStr = remove_first 36 (field (str ''Cost''));
         cost' = (if costStr \<noteq> [] then parseFloat costStr else Num 0);
         baseName = strip_jpg (field (str ''Image ID''));
         confidences = row_confidences hasCountConfidence hasClassConfidence field
     in \<lparr>id = baseName,
         filename = field (str ''Filename''),
         subset = field (str ''Subset''),
         imageUrl = str ''http://localhost:3001/dataset/'' @ field (str ''Subset'')
                    @ str ''/images/'' @ field (str ''Filename''),
         actualObjects = actualCount,
         actualClasses = actualClasses',
         actualClassNames = filter (\<lambda>n. js_trim n \<noteq> [])
                              (split_on 59 (field (str ''Actual Class Names''))),
         predictedObjects = Some predictedCount,
         predictedClasses = Some predictedClasses',
         predictedClassNames = Some (filter (\<lambda>n. js_trim n \<noteq> [])
                                       (split_on 59 (field (str ''Predicted Class Names'')))),
         predictedCountConfidence = fst confidences,
         predictedClassConfidences = snd confidences,
         llmResponse = Some (field (str ''LLM Response'')),
         score = Some \<lparr>countAccuracy = countAccuracy scores, classAccuracy = classAccuracy scores\<rparr>,
         apiDuration = Some (parse_int_or_zero (field (str ''API Duration (ms)''))),
         cost = Some cost',
         imageWidth = parse_int_or_undefined (field (str ''Image Width'')),
         imageHeight = parse_int_or_undefined (field (str ''Image Height'')),
         status = field (str ''Status'')\<rparr>)"

text \<open>
  One line of the file after the header: skipped when it is empty after trimming or
  has fewer fields than there are headers. Nothing in the row body throws (the
  confidence recovery catches its own exceptions), so the \<open>catch\<close> around it is
  never entered.
\<close>

definition parse_data_line :: "jsstring list \<Rightarrow> bool \<Rightarrow> bool \<Rightarrow> jsstring \<Rightarrow> EvaluationImage option" where
  "parse_data_line headers hasCountConfidence hasClassConfidence raw =
    (let line = js_trim raw in
     if line = [] then None
     else
       let row_fields = parseCSVRow line in
       if length row_fields < length headers then None
       else Some (row_image headers hasCountConfidence hasClassConfidence row_fields))"

definition parseCSVToEvaluationData :: "jsstring \<Rightarrow> error + EvaluationImage list" where
  "parseCSVToEvaluationData csvContent =
    (let lines = split_on 10 (js_trim csvContent) in
     if length lines < 2 then Inl (Error (str ''Invalid CSV format: insufficient data''))
     else
       let headers = parse_header_line (hd lines) in
       if \<not> list_all (\<lambda>header. header \<in> set headers) requiredHeaders
       then Inl (Error (str ''Invalid CSV format: missing required headers''))
       else
         let hasCountConfidence = (str ''Count Confidence'' \<in> set headers);
             hasClassConfidence = (str ''Class Confidence'' \<in> set headers)
         in Inr (List.map_filter
                   (parse_data_line headers hasCountConfidence hasClassConfidence)
                   (tl lines)))"



text \<open>
  A piece of text that can stand in a cell: no double quote and no line feed. An image
  that is well formed for the round trip: completed, its identity and names such
  text, its counts and class ids integers below \<open>10^21\<close> in magnitude, its prediction
  present, its count confidence (if any) a number, and its score the one
  \<open>calculateImageScore\<close> gives for its own counts and classes.
\<close>

definition clean_text :: "jsstring \<Rightarrow> bool" where
  "clean_text s = (34 \<notin> set s \<and> 10 \<notin> set s)"

definition well_formed_image :: "EvaluationImage \<Rightarrow> bool" where
  "well_formed_image img =
    (status img = str ''completed''
     \<and> clean_text (id img) \<and> clean_text (filename img) \<and> clean_text (subset img)
     \<and> list_all clean_text (actualClassNames img)
     \<and> (case predictedClassNames img of None \<Rightarrow> True | Some ns \<Rightarrow> list_all clean_text ns)
     \<and> \<bar>actualObjects img\<bar> < 10 ^ 21
     \<and> list_all (\<lambda>c. \<bar>c\<bar> < 10 ^ 21) (actualClasses img)
     \<and> (case predictedCountConfidence img of
           None \<Rightarrow> True
         | Some v \<Rightarrow> (case v of JNum n \<Rightarrow> True | _ \<Rightarrow> False))
     \<and> (case (predictedObjects img, predictedClasses img) of
           (Some p, Some pc) \<Rightarrow>
             \<bar>p\<bar> < 10 ^ 21 \<and> list_all (\<lambda>c. \<bar>c\<bar> < 10 ^ 21) pc
             \<and> score img
                 = Some (calculateImageScore (Num (of_int (actualObjects img))) (actualClasses img)
                           (Num (of_int p)) pc)
         | _ \<Rightarrow> False))"

text \<open>
  Two images that agree in what the scoring reads and gives: counts, class lists and
  score.
\<close>

definition same_prediction :: "EvaluationImage \<Rightarrow> EvaluationImage \<Rightarrow> bool" where
  "same_prediction img img' =
    (actualObjects img' = actualObjects img \<and> actualClasses img' = actualClasses img
     \<and> predictedObjects img' = predictedObjects img
     \<and> predictedClasses img' = predictedClasses img \<and> score img' = score img)"

section \<open>Concrete inputs\<close>

text \<open>A concrete hook state: one model, flagged as running, with one completed image.\<close>

definition example_image :: EvaluationImage where
  "example_image =
    \<lparr>id = str ''img1'', filename = str ''img1.jpg'', subset = str ''train'',
     imageUrl = str ''/dataset/train/images/img1.jpg'',
     actualObjects = 2, actualClasses = [0, 1],
     actualClassNames = [str ''Small'', str ''Medium''],
     predictedObjects = Some 2, predictedClasses = Some [0, 1],
     predictedClassNames = Some [str ''Small'', str ''Medium''],
     predictedCountConfidence = Some (JNum (Num (9 / 10))),
     predictedClassConfidences = Some [Num (4 / 5), Num (7 / 10)],
     llmResponse = Some (str ''ok''),
     score = Some \<lparr>countAccuracy = Num 1, classAccuracy = Num 1\<rparr>,
     apiDuration = Some 1200, cost = Some (Num (1 / 100)),
     imageWidth = Some 512, imageHeight = Some 512,
     status = str ''completed''\<rparr>"

definition example_config :: EvaluationConfig where
  "example_config =
    \<lparr>sampleSize = 1, llmProvider = str ''openai'', llmModel = str ''gpt-4o'',
     systemPrompt = str ''count'', config_subset = str ''train'', includeOntology = True,
     enableZeroShotOntologyByExample = False, structuredOutput = True,
     apiDelaySeconds = 0\<rparr>"

definition example_evaluation :: ModelEvaluation where
  "example_evaluation =
    \<lparr>model = \<lparr>model_id = str ''gpt-4o'', model_name = str ''GPT-4o'',
              provider = str ''openai'', providerName = str ''OpenAI''\<rparr>,
     me_images = [example_image],
     results = None, isRunning = True, currentImageIndex = 1, progress = 100,
     me_config = example_config\<rparr>"

definition example_state :: hook_state where
  "example_state =
    \<lparr>stopFlags = [str ''gpt-4o'' \<mapsto> False],
     modelEvaluations = [str ''gpt-4o'' \<mapsto> example_evaluation]\<rparr>"

text \<open>Responses a model may send, and the prediction that holds nothing.\<close>

definition empty_prediction :: parsed_response where
  "empty_prediction = \<lparr>count' = Num 0, classes = [], countConfidence = None, classConfidences = None\<rparr>"

definition fenced_example :: jsstring where
  "fenced_example =
     str ''```json'' @ [10]
     @ str ''{\"count\":2,\"objects\":[{\"class\":0,\"confidence\":0.9},{\"class\":9,\"confidence\":0.5}]}''
     @ [10] @ str ''```''"

definition fractional_class_example :: jsstring where
  "fractional_class_example = str ''{\"count\":1,\"classes\":[2.5]}''"

definition negative_count_example :: jsstring where
  "negative_count_example = str ''{\"count\":-3,\"classes\":[]}''"

definition array_wrapped_example :: jsstring where
  "array_wrapped_example = str ''[{\"count\":2,\"classes\":[1]}]''"






text \<open>A completed run of one image, and a run without images.\<close>

definition example_run :: EvaluationResult where
  "example_run =
    \<lparr>config = example_config, images = [example_image],
     averageCountAccuracy = Num 1, averageClassAccuracy = Num 1, totalCost = Num (1 / 100),
     startTime = 0, endTime = None, duration = Some 1200\<rparr>"

definition empty_run :: EvaluationResult where
  "empty_run =
    \<lparr>config = example_config, images = [],
     averageCountAccuracy = NaN, averageClassAccuracy = NaN, totalCost = Num 0,
     startTime = 0, endTime = None, duration = None\<rparr>"

definition no_exponent :: "rat \<Rightarrow> jsstring" where
  "no_exponent r = []"

section \<open>Properties of the scoring engine\<close>

lemma foldl_count_step:
  "get_or_zero (foldl (\<lambda>m v. m(v \<mapsto> get_or_zero m v + 1)) m xs) c
     = get_or_zero m c + count (mset xs) c"
  by (induction xs arbitrary: m) (auto simp: get_or_zero_def)

lemma get_or_zero_empty: "get_or_zero Map.empty c = 0"
  by (simp add: get_or_zero_def)

lemma get_count_occurrences:
  "get_or_zero (count_occurrences xs) c = count (mset xs) c"
  using foldl_count_step[of Map.empty xs c]
  by (simp add: count_occurrences_def get_or_zero_empty)

lemma foldl_add_distinct:
  "distinct cs \<Longrightarrow> foldl (\<lambda>acc c. acc + f c) (a::nat) cs = a + sum f (set cs)"
proof (induction cs arbitrary: a)
  case Nil
  show ?case by simp
next
  case (Cons c cs)
  have "foldl (\<lambda>acc c. acc + f c) a (c # cs) = foldl (\<lambda>acc c. acc + f c) (a + f c) cs"
    by simp
  also have "\<dots> = (a + f c) + sum f (set cs)"
    using Cons by simp
  also have "\<dots> = a + sum f (set (c # cs))"
    using Cons.prems by simp
  finally show ?case .
qed

lemma set_in_order_props: "distinct (set_in_order xs)" "set (set_in_order xs) = set xs"
  by (simp_all add: set_in_order_def)

lemma identical_check:
  "(length xs = length ys \<and> list_all (\<lambda>idx. xs ! idx = ys ! idx) [0..<length xs]) = (xs = ys)"
proof
  assume "length xs = length ys \<and> list_all (\<lambda>idx. xs ! idx = ys ! idx) [0..<length xs]"
  then show "xs = ys"
    by (intro nth_equalityI) (simp_all add: list_all_iff)
next
  assume "xs = ys"
  then show "length xs = length ys \<and> list_all (\<lambda>idx. xs ! idx = ys ! idx) [0..<length xs]"
    by (simp add: list_all_iff)
qed

lemma sort_eq_iff_mset: "(sort xs = sort ys) = (mset xs = mset ys)"
  by (metis mset_sort properties_for_sort sorted_sort)

lemma correct_matches_eq:
  "foldl (\<lambda>acc classId. acc + min (get_or_zero (count_occurrences (sort actual)) classId)
                                   (get_or_zero (count_occurrences (sort predicted)) classId))
         0 (set_in_order (actual @ predicted))
   = sum (\<lambda>c. min (count (mset actual) c) (count (mset predicted) c)) (set actual \<union> set predicted)"
  by (simp add: foldl_add_distinct set_in_order_props get_count_occurrences)

lemma identical_sorted_iff:
  "(length (sort actual) = length (sort predicted) \<and>
      list_all (\<lambda>idx. sort actual ! idx = sort predicted ! idx) [0..<length (sort actual)])
   = (mset actual = mset predicted)"
  using identical_check[of "sort actual" "sort predicted"] sort_eq_iff_mset[of actual predicted]
  by simp

lemma matches_sum_eq_inter:
  "sum (\<lambda>c. min (count A c) (count P c)) (set_mset A \<union> set_mset P) = size (A \<inter># P)"
proof -
  have "size (A \<inter># P) = sum (count (A \<inter># P)) (set_mset (A \<inter># P))"
    by (simp add: size_multiset_overloaded_eq)
  also have "\<dots> = sum (count (A \<inter># P)) (set_mset A \<union> set_mset P)"
    by (rule sum.mono_neutral_left) (auto simp: not_in_iff)
  finally show ?thesis by simp
qed

lemma size_inter_le: "size (A \<inter># P) \<le> min (size A) (size P)"
  by (simp add: size_mset_mono)

lemma nat_ratio_le_1: "c \<le> m \<Longrightarrow> (of_nat c :: rat) / of_nat m \<le> 1"
  by (cases "m = 0") (simp_all add: divide_le_eq_1)

lemma calculateClassAccuracy_unit:
  "0 \<le> calculateClassAccuracy actual predicted \<and> calculateClassAccuracy actual predicted \<le> 1"
proof -
  let ?A = "mset actual" and ?P = "mset predicted"
  define b :: rat where
    "b = of_nat (size (?A \<inter># ?P)) / of_nat (max (length actual) (length predicted))"
  define l :: rat where
    "l = of_nat (min (length actual) (length predicted))
         / of_nat (max (length actual) (length predicted))"
  have "size (?A \<inter># ?P) \<le> max (length actual) (length predicted)"
    using size_inter_le[of ?A ?P] by simp linarith
  then have b1: "b \<le> 1" unfolding b_def by (rule nat_ratio_le_1)
  have b0: "0 \<le> b" unfolding b_def by simp
  have l1: "l \<le> 1" unfolding l_def by (rule nat_ratio_le_1) simp
  have l0: "0 \<le> l" unfolding l_def by simp
  have bl1: "b * l \<le> 1" using mult_mono[OF b1 l1 _ l0] by simp
  have bl0: "0 \<le> b * l" using b0 l0 by (rule mult_nonneg_nonneg)
  have m: "foldl (\<lambda>acc classId. acc + min (get_or_zero (count_occurrences (sort actual)) classId)
                                   (get_or_zero (count_occurrences (sort predicted)) classId))
         0 (set_in_order (actual @ predicted)) = size (?A \<inter># ?P)"
    using correct_matches_eq[of actual predicted] matches_sum_eq_inter[of ?A ?P] by simp
  have "calculateClassAccuracy actual predicted = 1 \<or> calculateClassAccuracy actual predicted = 0
        \<or> calculateClassAccuracy actual predicted = b
        \<or> calculateClassAccuracy actual predicted = b * l"
    unfolding calculateClassAccuracy_def Let_def m b_def l_def by simp
  then show ?thesis
    using b0 b1 bl0 bl1 by auto
qed

lemma class_accuracy_unit:
  "in_unit_interval (classAccuracy (calculateImageScore x ac y pc))"
  using calculateClassAccuracy_unit[of ac pc]
  by (simp add: calculateImageScore_def Let_def)

lemma count_accuracy_unit:
  assumes "0 \<le> a" "0 \<le> p"
  shows "in_unit_interval (countAccuracy (calculateImageScore (Num a) ac (Num p) pc))"
  using assms by (auto simp: calculateImageScore_def Let_def divide_le_eq_1)

text \<open>
  C1. For all class-id sequences, \<open>calculateClassAccuracy\<close> depends only on the two
  multisets and returns what the specification prescribes: 1 if both are empty, 0 if
  exactly one is, 1 if they are the same multiset, and otherwise, with \<open>correct\<close> the
  sum over the distinct class ids of the smaller of the two counts and \<open>maxTotal\<close> the
  larger length, \<open>correct / maxTotal\<close> for equal lengths and that quotient times
  \<open>min / max\<close> of the lengths for different ones.
\<close>

theorem calculateClassAccuracy_refines_spec:
  "calculateClassAccuracy actual predicted = classAccuracy_spec (mset actual) (mset predicted)"
proof -
  have sizes: "size (mset actual) = length actual" "size (mset predicted) = length predicted"
    by simp_all
  have empties: "(mset actual = {#}) = (length actual = 0)"
    "(mset predicted = {#}) = (length predicted = 0)"
    by simp_all
  have sets: "set_mset (mset actual) = set actual" "set_mset (mset predicted) = set predicted"
    by simp_all
  show ?thesis
    unfolding calculateClassAccuracy_def classAccuracy_spec_def Let_def
      identical_sorted_iff correct_matches_eq sizes empties sets
    by (auto simp: max_def)
qed

theorem calculateClassAccuracy_refines_spec_witness:
  "classAccuracy_spec (mset [0, 1, 1 :: int]) (mset [1, 2, 1, 3]) = 3 / 8"
proof -
  have "calculateClassAccuracy [0, 1, 1 :: int] [1, 2, 1, 3] = 3 / 8"
    by (simp add: calculateClassAccuracy_def count_occurrences_def set_in_order_def
        get_or_zero_def Let_def)
  then show ?thesis
    using calculateClassAccuracy_refines_spec[of "[0, 1, 1 :: int]" "[1, 2, 1, 3]"] by simp
qed

text \<open>
  C2. For all non-negative integers \<open>actual\<close> and \<open>predicted\<close>, the count accuracy of
  \<open>calculateImageScore\<close> is 1 when both are zero, 0 when exactly one is zero, and
  \<open>min / max\<close> of the two otherwise; for 3 and 2 it is 2/3.
\<close>

theorem count_accuracy_formula:
  "countAccuracy (calculateImageScore (Num (of_nat a)) ac (Num (of_nat p)) pc)
     = Num (if a = 0 \<and> p = 0 then 1 else if a = 0 \<or> p = 0 then 0
            else of_nat (min a p) / of_nat (max a p))
   \<and> countAccuracy (calculateImageScore (Num 3) ac (Num 2) pc) = Num (2 / 3)"
  by (simp add: calculateImageScore_def Let_def min_def max_def)

section \<open>Properties of stop and reset\<close>

text \<open>
  C9 as stated fails: \<open>stop\<close> raises the cancellation flag of the model,
  \<open>reset\<close> leaves it as it was.
\<close>

theorem reset_keeps_cancellation_flag_counterexample:
  "stopFlags (fst (stopEvaluation (str ''gpt-4o'') example_state)) (str ''gpt-4o'') = Some True
   \<and> stopFlags (fst (resetEvaluation (str ''gpt-4o'') example_state)) (str ''gpt-4o'') = Some False"
  by (simp add: stopEvaluation_def resetEvaluation_def example_state_def Let_def)

text \<open>
  C9, amended. For every evaluation state that holds the model, \<open>reset\<close> makes the
  state update of \<open>stop\<close> (not running, no results, every image back to pending with
  prediction, confidences, score, response, cost and duration cleared) and in
  addition sets \<open>currentImageIndex\<close> and \<open>progress\<close> to 0; it does not touch the
  cancellation flag, which \<open>stop\<close> sets.
\<close>

theorem reset_is_stop_update_plus_progress:
  assumes "modelEvaluations st modelId = Some prev"
  shows "\<exists>ev. modelEvaluations (fst (stopEvaluation modelId st)) modelId = Some ev
           \<and> modelEvaluations (fst (resetEvaluation modelId st))
               = (modelEvaluations (fst (stopEvaluation modelId st)))
                   (modelId \<mapsto> ev\<lparr>currentImageIndex := 0, progress := 0\<rparr>)
           \<and> isRunning ev = False \<and> results ev = None
           \<and> length (me_images ev) = length (me_images prev)
           \<and> (\<forall>img \<in> set (me_images ev).
                 status img = str ''pending'' \<and> score img = None
                 \<and> predictedObjects img = Some 0 \<and> predictedClasses img = Some []
                 \<and> predictedCountConfidence img = None
                 \<and> predictedClassConfidences img = Some []
                 \<and> llmResponse img = Some [] \<and> apiDuration img = Some 0
                 \<and> cost img = Some (Num 0))
           \<and> stopFlags (fst (stopEvaluation modelId st)) = (stopFlags st)(modelId \<mapsto> True)
           \<and> stopFlags (fst (resetEvaluation modelId st)) = stopFlags st
           \<and> snd (stopEvaluation modelId st) = None
           \<and> snd (resetEvaluation modelId st) = None"
  using assms
  by (auto simp: stopEvaluation_def resetEvaluation_def Let_def)

theorem reset_is_stop_update_plus_progress_witness:
  "modelEvaluations example_state (str ''gpt-4o'') = Some example_evaluation
   \<and> stopFlags (fst (resetEvaluation (str ''gpt-4o'') example_state)) = stopFlags example_state
   \<and> snd (resetEvaluation (str ''gpt-4o'') example_state) = None"
proof -
  have h: "modelEvaluations example_state (str ''gpt-4o'') = Some example_evaluation"
    by (simp add: example_state_def)
  show ?thesis
    using h reset_is_stop_update_plus_progress[OF h] by blast
qed

section \<open>Properties of the response normaliser\<close>

lemmas string_defs = str_def js_trim_def js_trim_start_def js_trim_end_def is_js_whitespace_def
  is_digit_def is_word_char_def js_startsWith_def digit_value_def is_radix_digit_def
  digits_value_def scale10_def exponent_part_def decimal_prefix_def string_to_number_def

lemmas json_defs = is_json_whitespace_def decode_escape_def minus_sign_def json_int_part_def
  json_frac_part_def lex_number_def start_value_def JSON_parse_def

lemmas normaliser_defs = bind_err_def get_prop_def numbers_between_def List.map_filter_simps
  strip_fence_start_def strip_fence_end_def match_braces_def strip_fences_def clean_response_def
  optional_map_prop_def objects_shape_def aircraft_shape_def classes_shape_def
  fallback_classes_def fallback_shape_def shape_of_parsed_def json_extraction_def
  lower_ascii_def digits_after_keyword_def count_match_at_def text_extraction_def
  parseLLMResponse_def

lemma bind_err_Inr: "(bind_err m f = Inr r) = (\<exists>x. m = Inr x \<and> f x = Inr r)"
  by (cases m) (simp_all add: bind_err_def)

lemma number_between_range: "number_between lo hi v = Some r \<Longrightarrow> lo \<le> r \<and> r \<le> hi"
  by (erule number_between.elims) (auto split: if_splits)

lemma numbers_between_range: "x \<in> set (numbers_between lo hi vs) \<Longrightarrow> lo \<le> x \<and> x \<le> hi"
proof (induction vs)
  case Nil
  then show ?case by (simp add: numbers_between_def)
next
  case (Cons v vs)
  show ?case
  proof (cases "number_between lo hi v")
    case None
    with Cons show ?thesis by (simp add: numbers_between_def)
  next
    case (Some r)
    with Cons number_between_range[OF Some] show ?thesis
      by (auto simp: numbers_between_def)
  qed
qed

lemma objects_shape_filtered: "objects_shape c os cc = Inr r \<Longrightarrow> filtered_result r"
  by (auto simp: objects_shape_def bind_err_Inr filtered_result_def Let_def)

lemma aircraft_shape_filtered: "aircraft_shape c os cc = Inr r \<Longrightarrow> filtered_result r"
  by (auto simp: aircraft_shape_def bind_err_Inr filtered_result_def)

lemma classes_shape_filtered: "classes_shape c os cc = Inr r \<Longrightarrow> filtered_result r"
  by (auto simp: classes_shape_def bind_err_Inr filtered_result_def)

lemma fallback_shape_filtered: "fallback_shape c cl ob ai cc = Inr r \<Longrightarrow> filtered_result r"
  by (auto simp: fallback_shape_def bind_err_Inr filtered_result_def)

lemma shape_of_parsed_filtered: "shape_of_parsed v = Inr r \<Longrightarrow> filtered_result r"
  unfolding shape_of_parsed_def bind_err_Inr
  by (auto split: option.splits if_splits
      dest: objects_shape_filtered aircraft_shape_filtered classes_shape_filtered
        fallback_shape_filtered)

lemma filter_as_numbers_between:
  "filter (\<lambda>n. 0 \<le> n \<and> n \<le> 6) ns = numbers_between 0 6 (map (\<lambda>n. Some (JNum (Num n))) ns)"
  by (induction ns) (simp_all add: numbers_between_def List.map_filter_simps)

lemma text_extraction_filtered: "filtered_result (text_extraction response)"
proof -
  have "\<exists>vs. filter (\<lambda>n. 0 \<le> n \<and> n \<le> 6) ns = numbers_between 0 6 vs" for ns :: "rat list"
    using filter_as_numbers_between by blast
  moreover have "\<exists>vs. [] = numbers_between 0 6 vs"
    by (rule exI[of _ "[]"]) (simp add: numbers_between_def List.map_filter_simps)
  ultimately show ?thesis
    by (simp add: text_extraction_def filtered_result_def Let_def)
qed

lemma parseLLMResponse_filtered: "parseLLMResponse response = Inr r \<Longrightarrow> filtered_result r"
  unfolding parseLLMResponse_def json_extraction_def
  by (auto simp: bind_err_Inr text_extraction_filtered split: sum.splits
      dest: shape_of_parsed_filtered)

lemma fenced_example_clean:
  "clean_response fenced_example
     = str ''{\"count\":2,\"objects\":[{\"class\":0,\"confidence\":0.9},{\"class\":9,\"confidence\":0.5}]}''"
  by (simp add: fenced_example_def string_defs normaliser_defs)

lemma fenced_example_parse:
  "JSON_parse (str ''{\"count\":2,\"objects\":[{\"class\":0,\"confidence\":0.9},{\"class\":9,\"confidence\":0.5}]}'')
     = Inr (JObj [(str ''count'', JNum (Num 2)),
                  (str ''objects'',
                   JArr [JObj [(str ''class'', JNum (Num 0)), (str ''confidence'', JNum (Num (9 / 10)))],
                         JObj [(str ''class'', JNum (Num 9)), (str ''confidence'', JNum (Num (1 / 2)))]])])"
  by (simp add: string_defs json_defs)

lemma fenced_example_shape:
  "shape_of_parsed
     (JObj [(str ''count'', JNum (Num 2)),
            (str ''objects'',
             JArr [JObj [(str ''class'', JNum (Num 0)), (str ''confidence'', JNum (Num (9 / 10)))],
                   JObj [(str ''class'', JNum (Num 9)), (str ''confidence'', JNum (Num (1 / 2)))]])])
     = Inr \<lparr>count' = Num 2, classes = [0], countConfidence = None,
             classConfidences = Some [9 / 10, 1 / 2]\<rparr>"
  by (simp add: string_defs normaliser_defs)

lemma fenced_example_result:
  "parseLLMResponse fenced_example
     = Inr \<lparr>count' = Num 2, classes = [0], countConfidence = None,
             classConfidences = Some [9 / 10, 1 / 2]\<rparr>"
  by (simp add: parseLLMResponse_def json_extraction_def fenced_example_clean
      fenced_example_parse fenced_example_shape bind_err_def)

lemma no_digit_takeWhile:
  "\<forall>c \<in> set s. \<not> is_digit c \<Longrightarrow> set r \<subseteq> set s \<Longrightarrow> takeWhile is_digit r = []"
  by (cases r) auto

lemma no_digit_after_keyword:
  assumes "\<forall>c \<in> set s. \<not> is_digit c"
  shows "digits_after_keyword keyword s = None"
proof -
  have "set (dropWhile (\<lambda>c. is_js_whitespace c \<or> c = 58) (drop (length keyword) s)) \<subseteq> set s"
    by (meson set_dropWhileD set_drop_subset subsetD subsetI)
  then show ?thesis
    using no_digit_takeWhile[OF assms] by (simp add: digits_after_keyword_def Let_def)
qed

lemma no_digit_count_match:
  "\<forall>c \<in> set s. \<not> is_digit c \<Longrightarrow> count_match s = None"
proof (induction s)
  case Nil
  show ?case by simp
next
  case (Cons c cs)
  have "count_match_at (c # cs) = None"
    using no_digit_after_keyword[OF Cons.prems] by (simp add: count_match_at_def)
  with Cons show ?case by simp
qed

lemma no_digit_class_matches:
  "\<forall>c \<in> set s. \<not> is_digit c \<Longrightarrow> class_matches b s = []"
  by (induction b s rule: class_matches.induct) auto

lemma text_extraction_floor:
  "\<forall>c \<in> set response. \<not> is_digit c \<Longrightarrow> text_extraction response = empty_prediction"
  by (simp add: text_extraction_def empty_prediction_def no_digit_count_match
      no_digit_class_matches)

text \<open>
  C3. For every input string \<open>parseLLMResponse\<close> returns a structure and lets no
  exception out: whatever the \<open>try\<close> block throws is caught, and the \<open>catch\<close> block
  cannot throw. Count 0 and no classes is the floor: it is what the empty string,
  malformed JSON and JSON without any recognised key give, and every response without
  a digit on which the \<open>try\<close> block throws.
\<close>

theorem parseLLMResponse_never_throws:
  "(\<forall>response. \<exists>r. parseLLMResponse response = Inr r)
   \<and> (\<forall>response e. json_extraction response = Inl e \<longrightarrow>
          (\<forall>c \<in> set response. \<not> is_digit c) \<longrightarrow>
          parseLLMResponse response = Inr empty_prediction)
   \<and> parseLLMResponse [] = Inr empty_prediction
   \<and> parseLLMResponse (str ''{\"count\":'') = Inr empty_prediction
   \<and> parseLLMResponse (str ''{\"foo\":\"bar\"}'') = Inr empty_prediction"
proof (intro conjI allI impI)
  fix response
  show "\<exists>r. parseLLMResponse response = Inr r"
    by (cases "json_extraction response") (simp_all add: parseLLMResponse_def)
next
  fix response e
  assume "json_extraction response = Inl e" "\<forall>c \<in> set response. \<not> is_digit c"
  then show "parseLLMResponse response = Inr empty_prediction"
    by (simp add: parseLLMResponse_def text_extraction_floor)
next
  show "parseLLMResponse [] = Inr empty_prediction"
    by (simp add: empty_prediction_def string_defs json_defs normaliser_defs)
next
  show "parseLLMResponse (str ''{\"count\":'') = Inr empty_prediction"
    by (simp add: empty_prediction_def string_defs json_defs normaliser_defs)
next
  have "clean_response (str ''{\"foo\":\"bar\"}'') = str ''{\"foo\":\"bar\"}''"
    by (simp add: string_defs normaliser_defs)
  moreover have "JSON_parse (str ''{\"foo\":\"bar\"}'') = Inr (JObj [(str ''foo'', JStr (str ''bar''))])"
    by (simp add: string_defs json_defs)
  moreover have "shape_of_parsed (JObj [(str ''foo'', JStr (str ''bar''))]) = Inr empty_prediction"
    by (simp add: empty_prediction_def string_defs normaliser_defs)
  ultimately show "parseLLMResponse (str ''{\"foo\":\"bar\"}'') = Inr empty_prediction"
    by (simp add: parseLLMResponse_def json_extraction_def bind_err_def)
qed

theorem parseLLMResponse_never_throws_witness:
  "json_extraction (str ''no aircraft'') = Inl SyntaxError
   \<and> parseLLMResponse (str ''no aircraft'') = Inr empty_prediction"
proof -
  have h1: "json_extraction (str ''no aircraft'') = Inl SyntaxError"
    by (simp add: string_defs json_defs normaliser_defs)
  have h2: "\<not> is_digit c" if "c \<in> set (str ''no aircraft'')" for c
    using that by (auto simp: str_def is_digit_def)
  show ?thesis
    using h1 parseLLMResponse_never_throws[THEN conjunct2, THEN conjunct1, rule_format, OF h1 h2]
    by simp
qed

text \<open>
  C4 as stated fails: a class id that is in range but not an integer passes the filter
  of a JSON response.
\<close>

theorem fractional_class_id_counterexample:
  "parseLLMResponse fractional_class_example
     = Inr \<lparr>count' = Num 1, classes = [5 / 2], countConfidence = None, classConfidences = None\<rparr>
   \<and> (5 / 2 :: rat) \<notin> \<int>"
proof
  have "clean_response fractional_class_example = fractional_class_example"
    by (simp add: fractional_class_example_def string_defs normaliser_defs)
  moreover have "JSON_parse fractional_class_example
      = Inr (JObj [(str ''count'', JNum (Num 1)), (str ''classes'', JArr [JNum (Num (5 / 2))])])"
    by (simp add: fractional_class_example_def string_defs json_defs)
  moreover have "shape_of_parsed
        (JObj [(str ''count'', JNum (Num 1)), (str ''classes'', JArr [JNum (Num (5 / 2))])])
      = Inr \<lparr>count' = Num 1, classes = [5 / 2], countConfidence = None, classConfidences = None\<rparr>"
    by (simp add: string_defs normaliser_defs)
  ultimately show "parseLLMResponse fractional_class_example
     = Inr \<lparr>count' = Num 1, classes = [5 / 2], countConfidence = None, classConfidences = None\<rparr>"
    by (simp add: parseLLMResponse_def json_extraction_def bind_err_def)
next
  show "(5 / 2 :: rat) \<notin> \<int>"
    by simp
qed

text \<open>
  C4, amended. For every input string, every element of the classes that
  \<open>parseLLMResponse\<close> returns is a number in the closed range from 0 to 6; a value out
  of that range is dropped, never returned. The fenced example gives count 2 and
  classes [0].
\<close>

theorem classes_within_range:
  "(\<forall>response r. parseLLMResponse response = Inr r \<longrightarrow> (\<forall>x \<in> set (classes r). 0 \<le> x \<and> x \<le> 6))
   \<and> (\<exists>r. parseLLMResponse fenced_example = Inr r \<and> count' r = Num 2 \<and> classes r = [0])"
proof (intro conjI allI impI ballI)
  fix response r x
  assume "parseLLMResponse response = Inr r" and x: "x \<in> set (classes r)"
  then have "filtered_result r"
    by (simp add: parseLLMResponse_filtered)
  then obtain vs where "classes r = numbers_between 0 6 vs"
    by (auto simp: filtered_result_def)
  with x show "0 \<le> x" "x \<le> 6"
    using numbers_between_range[of x 0 6 vs] by simp_all
next
  show "\<exists>r. parseLLMResponse fenced_example = Inr r \<and> count' r = Num 2 \<and> classes r = [0]"
    by (simp add: fenced_example_result)
qed

theorem classes_within_range_witness:
  "parseLLMResponse fenced_example
     = Inr \<lparr>count' = Num 2, classes = [0], countConfidence = None,
             classConfidences = Some [9 / 10, 1 / 2]\<rparr>
   \<and> (0::rat) \<le> 0 \<and> (0::rat) \<le> 6"
proof -
  have r: "parseLLMResponse fenced_example
     = Inr \<lparr>count' = Num 2, classes = [0], countConfidence = None,
             classConfidences = Some [9 / 10, 1 / 2]\<rparr>"
    by (rule fenced_example_result)
  show ?thesis
    using r classes_within_range[THEN conjunct1, rule_format, OF r, of 0] by simp
qed

text \<open>
  C7 as stated fails: the normaliser returns the count a response gives, also a
  negative one, and the count accuracy of a negative count is negative.
\<close>

theorem negative_count_accuracy_counterexample:
  "parseLLMResponse negative_count_example
     = Inr \<lparr>count' = Num (- 3), classes = [], countConfidence = None, classConfidences = None\<rparr>
   \<and> countAccuracy (calculateImageScore (Num 3) [0, 1, 1 :: rat] (Num (- 3)) []) = Num (- 1)
   \<and> \<not> in_unit_interval (Num (- 1))"
proof (intro conjI)
  have "clean_response negative_count_example = negative_count_example"
    by (simp add: negative_count_example_def string_defs normaliser_defs)
  moreover have "JSON_parse negative_count_example
      = Inr (JObj [(str ''count'', JNum (Num (- 3))), (str ''classes'', JArr [])])"
    by (simp add: negative_count_example_def string_defs json_defs)
  moreover have "shape_of_parsed (JObj [(str ''count'', JNum (Num (- 3))), (str ''classes'', JArr [])])
      = Inr \<lparr>count' = Num (- 3), classes = [], countConfidence = None, classConfidences = None\<rparr>"
    by (simp add: string_defs normaliser_defs)
  ultimately show "parseLLMResponse negative_count_example
     = Inr \<lparr>count' = Num (- 3), classes = [], countConfidence = None, classConfidences = None\<rparr>"
    by (simp add: parseLLMResponse_def json_extraction_def bind_err_def)
next
  show "countAccuracy (calculateImageScore (Num 3) [0, 1, 1 :: rat] (Num (- 3)) []) = Num (- 1)"
    by (simp add: calculateImageScore_def Let_def)
next
  show "\<not> in_unit_interval (Num (- 1))"
    by simp
qed

text \<open>
  C7, amended. For every non-negative ground-truth count and every non-negative
  predicted count, and for all class lists, both fields that \<open>calculateImageScore\<close>
  returns lie in the closed interval from 0 to 1; the class accuracy does so for any
  counts at all.
\<close>

theorem scores_in_unit_interval:
  "(0 \<le> a \<and> 0 \<le> p \<longrightarrow>
      in_unit_interval (countAccuracy (calculateImageScore (Num a) ac (Num p) pc)))
   \<and> in_unit_interval (classAccuracy (calculateImageScore x ac y pc))"
  using count_accuracy_unit[of a p ac pc] class_accuracy_unit[of x ac y pc] by blast

theorem scores_in_unit_interval_witness:
  "countAccuracy (calculateImageScore (Num 3) [0, 1, 1 :: rat] (Num 2) [0, 1]) = Num (2 / 3)
   \<and> in_unit_interval (Num (2 / 3))
   \<and> in_unit_interval (classAccuracy (calculateImageScore (Num 3) [0, 1, 1 :: rat] (Num 2) [0, 1]))"
proof -
  have c: "countAccuracy (calculateImageScore (Num 3) [0, 1, 1 :: rat] (Num 2) [0, 1]) = Num (2 / 3)"
    by (simp add: calculateImageScore_def Let_def)
  show ?thesis
    using c scores_in_unit_interval[of 3 2 "[0, 1, 1 :: rat]" "[0, 1]" "Num 3" "Num 2"]
    by simp
qed

text \<open>
  C8 fails on the code: the brace pattern is applied before any parse is tried. The
  response below, trimmed and without a fence, is JSON as it stands (an array, which
  the shape recognition turns into count 0 and no classes); the code parses the
  braces inside it instead and returns count 2 and classes [1].
\<close>

theorem braces_extracted_before_outright_parse:
  "strip_fences array_wrapped_example = array_wrapped_example
   \<and> JSON_parse array_wrapped_example
       = Inr (JArr [JObj [(str ''count'', JNum (Num 2)), (str ''classes'', JArr [JNum (Num 1)])]])
   \<and> shape_of_parsed
         (JArr [JObj [(str ''count'', JNum (Num 2)), (str ''classes'', JArr [JNum (Num 1)])]])
       = Inr empty_prediction
   \<and> parseLLMResponse array_wrapped_example
       = Inr \<lparr>count' = Num 2, classes = [1], countConfidence = None, classConfidences = None\<rparr>"
proof (intro conjI)
  show "strip_fences array_wrapped_example = array_wrapped_example"
    by (simp add: array_wrapped_example_def string_defs normaliser_defs)
next
  show "JSON_parse array_wrapped_example
       = Inr (JArr [JObj [(str ''count'', JNum (Num 2)), (str ''classes'', JArr [JNum (Num 1)])]])"
    by (simp add: array_wrapped_example_def string_defs json_defs)
next
  show "shape_of_parsed
         (JArr [JObj [(str ''count'', JNum (Num 2)), (str ''classes'', JArr [JNum (Num 1)])]])
       = Inr empty_prediction"
    by (simp add: empty_prediction_def string_defs normaliser_defs)
next
  have "clean_response array_wrapped_example = str ''{\"count\":2,\"classes\":[1]}''"
    by (simp add: array_wrapped_example_def string_defs normaliser_defs)
  moreover have "JSON_parse (str ''{\"count\":2,\"classes\":[1]}'')
      = Inr (JObj [(str ''count'', JNum (Num 2)), (str ''classes'', JArr [JNum (Num 1)])])"
    by (simp add: string_defs json_defs)
  moreover have "shape_of_parsed
        (JObj [(str ''count'', JNum (Num 2)), (str ''classes'', JArr [JNum (Num 1)])])
      = Inr \<lparr>count' = Num 2, classes = [1], countConfidence = None, classConfidences = None\<rparr>"
    by (simp add: string_defs normaliser_defs)
  ultimately show "parseLLMResponse array_wrapped_example
       = Inr \<lparr>count' = Num 2, classes = [1], countConfidence = None, classConfidences = None\<rparr>"
    by (simp add: parseLLMResponse_def json_extraction_def bind_err_def)
qed













section \<open>Properties of the run serialiser\<close>







lemma row_image_score:
  "score (row_image headers hcc hclc row_fields)
     = Some (calculateImageScore
               (Num (of_int (parse_int_or_zero (getField headers row_fields (str ''Actual Objects'')))))
               (parse_class_list (getField headers row_fields (str ''Actual Classes'')))
               (Num (of_int (parse_int_or_zero (getField headers row_fields (str ''Predicted Objects'')))))
               (parse_class_list (getField headers row_fields (str ''Predicted Classes''))))"
  by (simp add: row_image_def Let_def)

lemma row_image_fields:
  "actualObjects (row_image headers hcc hclc row_fields)
     = parse_int_or_zero (getField headers row_fields (str ''Actual Objects''))"
  "actualClasses (row_image headers hcc hclc row_fields)
     = parse_class_list (getField headers row_fields (str ''Actual Classes''))"
  "predictedObjects (row_image headers hcc hclc row_fields)
     = Some (parse_int_or_zero (getField headers row_fields (str ''Predicted Objects'')))"
  "predictedClasses (row_image headers hcc hclc row_fields)
     = Some (parse_class_list (getField headers row_fields (str ''Predicted Classes'')))"
  by (simp_all add: row_image_def Let_def)














subsection \<open>Round trip: splitting and joining\<close>

lemma split_on_no_sep: "c \<notin> set x \<Longrightarrow> split_on c x = [x]"
  by (induction x) auto

lemma split_on_append_sep: "c \<notin> set x \<Longrightarrow> split_on c (x @ c # rest) = x # split_on c rest"
  by (induction x) auto

lemma split_join:
  "xs \<noteq> [] \<Longrightarrow> \<forall>x \<in> set xs. c \<notin> set x \<Longrightarrow> split_on c (join_with [c] xs) = xs"
proof (induction "[c]" xs rule: join_with.induct)
  case 1
  then show ?case by simp
next
  case (2 x)
  then show ?case by (simp add: split_on_no_sep)
next
  case (3 x y ys)
  then show ?case by (simp add: split_on_append_sep)
qed

lemma set_join_with: "set (join_with sep xs) \<subseteq> set sep \<union> \<Union> (set ` set xs)"
  by (induction sep xs rule: join_with.induct) auto

lemma join_with_Cons: "ys \<noteq> [] \<Longrightarrow> join_with sep (x # ys) = x @ sep @ join_with sep ys"
  by (cases ys) simp_all

subsection \<open>Trimming\<close>

lemma js_trim_id:
  assumes "s \<noteq> []" "\<not> is_js_whitespace (hd s)" "\<not> is_js_whitespace (last s)"
  shows "js_trim s = s"
proof -
  have 1: "dropWhile is_js_whitespace s = s"
    using assms(1,2) by (cases s) simp_all
  have "dropWhile P t = t" if "t \<noteq> []" "\<not> P (hd t)" for P and t :: jsstring
    using that by (cases t) simp_all
  then have 2: "dropWhile is_js_whitespace (rev s) = rev s"
    using assms(1,3) by (simp add: hd_rev)
  show ?thesis
    by (simp add: js_trim_def js_trim_start_def js_trim_end_def 1 2)
qed

lemma js_trim_Nil: "js_trim [] = []"
  by (simp add: js_trim_def js_trim_start_def js_trim_end_def)

subsection \<open>Printing and reading integers\<close>

lemma is_radix_digit_10: "is_radix_digit 10 c = is_digit c"
  by (auto simp: is_radix_digit_def digit_value_def is_digit_def Let_def)

lemma digit_value_10: "is_digit c \<Longrightarrow> digit_value 10 c = Some (c - 48)"
  by (auto simp: digit_value_def is_digit_def Let_def)

lemma nat_digits_digits: "c \<in> set (nat_digits n) \<Longrightarrow> is_digit c"
proof (induction n rule: nat_digits.induct)
  case (1 n)
  show ?case
  proof (cases "n < 10")
    case True
    with "1.prems" show ?thesis
      by (simp add: nat_digits.simps[of n] is_digit_def)
  next
    case False
    have "n mod 10 < 10" by simp
    then have "is_digit (48 + n mod 10)"
      unfolding is_digit_def by linarith
    with False "1.prems" "1.IH" show ?thesis
      by (auto simp: nat_digits.simps[of n])
  qed
qed

lemma nat_digits_nonempty: "nat_digits n \<noteq> []"
  by (subst nat_digits.simps) simp

lemma digits_value_snoc:
  "digits_value radix (ds @ [d]) = digits_value radix ds * radix + the (digit_value radix d)"
  by (simp add: digits_value_def)

lemma digits_value_nat_digits: "digits_value 10 (nat_digits n) = n"
proof (induction n rule: nat_digits.induct)
  case (1 n)
  show ?case
  proof (cases "n < 10")
    case True
    then have "is_digit (48 + n)" unfolding is_digit_def by linarith
    with True show ?thesis
      by (simp add: nat_digits.simps[of n] digits_value_def digit_value_10)
  next
    case False
    have "n mod 10 < 10" by simp
    then have "is_digit (48 + n mod 10)" unfolding is_digit_def by linarith
    with False "1.IH" show ?thesis
      by (simp add: nat_digits.simps[of n] digits_value_snoc digit_value_10)
  qed
qed

lemma digit_not_special:
  "is_digit c \<Longrightarrow> \<not> is_js_whitespace c \<and> c \<noteq> 34 \<and> c \<noteq> 10 \<and> c \<noteq> 59 \<and> c \<noteq> 45
     \<and> c \<noteq> 43 \<and> c \<noteq> 120 \<and> c \<noteq> 88 \<and> c \<noteq> 44"
  by (auto simp: is_digit_def is_js_whitespace_def)

lemma takeWhile_all: "\<forall>x \<in> set xs. P x \<Longrightarrow> takeWhile P xs = xs"
  by (induction xs) auto

lemma parseInt_nat_digits: "parseInt (nat_digits m) = Some (int m)"
proof -
  let ?u = "nat_digits m"
  obtain c w where u: "?u = c # w"
    using nat_digits_nonempty[of m] by (cases ?u) auto
  have dig: "\<forall>x \<in> set ?u. is_digit x"
    using nat_digits_digits by blast
  then have c: "is_digit c" and w: "\<forall>x \<in> set w. is_digit x"
    using u by simp_all
  have ts: "js_trim_start ?u = ?u"
    using c digit_not_special[of c] u by (simp add: js_trim_start_def)
  have no_x: "\<not> js_startsWith ?u (str ''0x'')" "\<not> js_startsWith ?u (str ''0X'')"
  proof -
    have "\<not> js_startsWith ?u [48, x]" if "\<not> is_digit x" for x
    proof
      assume "js_startsWith ?u [48, x]"
      then have "take (length [48, x]) ?u = [48, x]"
        unfolding js_startsWith_def .
      then have "x \<in> set (take (length [48, x]) ?u)" by simp
      then have "x \<in> set ?u" by (rule in_set_takeD)
      with dig that show False by blast
    qed
    then show "\<not> js_startsWith ?u (str ''0x'')" "\<not> js_startsWith ?u (str ''0X'')"
      by (simp_all add: str_def is_digit_def)
  qed
  have tw: "takeWhile (is_radix_digit 10) ?u = ?u"
    using dig by (intro takeWhile_all) (simp add: is_radix_digit_10)
  have sign: "(case ?u of [] \<Rightarrow> (1::int, ?u)
       | c # w \<Rightarrow> if c = 45 then (- 1, w) else if c = 43 then (1, w) else (1, ?u)) = (1, ?u)"
    using c digit_not_special[of c] by (simp add: u)
  have radix: "(if js_startsWith ?u (str ''0x'') \<or> js_startsWith ?u (str ''0X'')
       then (16::nat, drop 2 ?u) else (10, ?u)) = (10, ?u)"
    using no_x by simp
  show ?thesis
    unfolding parseInt_def ts Let_def sign prod.case radix tw
    by (simp add: nat_digits_nonempty digits_value_nat_digits)
qed

lemma parseInt_minus_nat_digits: "parseInt (45 # nat_digits m) = Some (- int m)"
proof -
  let ?u = "nat_digits m"
  have dig: "\<forall>x \<in> set ?u. is_digit x"
    using nat_digits_digits by blast
  have ts: "js_trim_start (45 # ?u) = 45 # ?u"
    by (simp add: js_trim_start_def is_js_whitespace_def)
  have no_x: "\<not> js_startsWith ?u (str ''0x'')" "\<not> js_startsWith ?u (str ''0X'')"
  proof -
    have "\<not> js_startsWith ?u [48, x]" if "\<not> is_digit x" for x
    proof
      assume "js_startsWith ?u [48, x]"
      then have "take (length [48, x]) ?u = [48, x]"
        unfolding js_startsWith_def .
      then have "x \<in> set (take (length [48, x]) ?u)" by simp
      then have "x \<in> set ?u" by (rule in_set_takeD)
      with dig that show False by blast
    qed
    then show "\<not> js_startsWith ?u (str ''0x'')" "\<not> js_startsWith ?u (str ''0X'')"
      by (simp_all add: str_def is_digit_def)
  qed
  have tw: "takeWhile (is_radix_digit 10) ?u = ?u"
    using dig by (intro takeWhile_all) (simp add: is_radix_digit_10)
  have sign: "(case 45 # ?u of [] \<Rightarrow> (1::int, 45 # ?u)
       | c # w \<Rightarrow> if c = 45 then (- 1, w) else if c = 43 then (1, w) else (1, 45 # ?u))
       = (- 1, ?u)"
    by simp
  have radix: "(if js_startsWith ?u (str ''0x'') \<or> js_startsWith ?u (str ''0X'')
       then (16::nat, drop 2 ?u) else (10, ?u)) = (10, ?u)"
    using no_x by simp
  show ?thesis
    unfolding parseInt_def ts Let_def sign prod.case radix tw
    by (simp add: nat_digits_nonempty digits_value_nat_digits)
qed

lemma parseInt_int_to_string:
  assumes "\<bar>n\<bar> < 10 ^ 21"
  shows "parseInt (int_to_string expo n) = Some n"
proof (cases "n < 0")
  case True
  then show ?thesis
    using assms parseInt_minus_nat_digits[of "nat \<bar>n\<bar>"] by (simp add: int_to_string_def)
next
  case False
  then show ?thesis
    using assms parseInt_nat_digits[of "nat \<bar>n\<bar>"] by (simp add: int_to_string_def)
qed

text \<open>The characters of a printed integer: a minus sign and digits.\<close>

lemma int_to_string_chars:
  assumes "\<bar>n\<bar> < 10 ^ 21" "c \<in> set (int_to_string expo n)"
  shows "c = 45 \<or> is_digit c"
  using assms nat_digits_digits by (auto simp: int_to_string_def split: if_splits)

lemma int_to_string_nonempty: "\<bar>n\<bar> < 10 ^ 21 \<Longrightarrow> int_to_string expo n \<noteq> []"
  by (simp add: int_to_string_def nat_digits_nonempty)

lemma minus_or_digit_not_special:
  "c = 45 \<or> is_digit c \<Longrightarrow> \<not> is_js_whitespace c \<and> c \<noteq> 34 \<and> c \<noteq> 10 \<and> c \<noteq> 59 \<and> c \<noteq> 44"
  by (auto simp: is_digit_def is_js_whitespace_def)

lemma js_trim_int_to_string:
  assumes "\<bar>n\<bar> < 10 ^ 21"
  shows "js_trim (int_to_string expo n) = int_to_string expo n"
proof (rule js_trim_id)
  let ?s = "int_to_string expo n"
  show ne: "?s \<noteq> []" using assms by (rule int_to_string_nonempty)
  then have "hd ?s \<in> set ?s" "last ?s \<in> set ?s" by simp_all
  then show "\<not> is_js_whitespace (hd ?s)" "\<not> is_js_whitespace (last ?s)"
    using int_to_string_chars[OF assms] minus_or_digit_not_special by blast+
qed

lemma parse_int_or_zero_int_to_string:
  "\<bar>n\<bar> < 10 ^ 21 \<Longrightarrow> parse_int_or_zero (int_to_string expo n) = n"
  by (simp add: parse_int_or_zero_def parseInt_int_to_string)

lemma parseInt_Nil: "parseInt [] = None"
  by (simp add: parseInt_def js_trim_start_def js_startsWith_def str_def)

lemma parse_int_or_zero_int_or_empty:
  "\<bar>p\<bar> < 10 ^ 21 \<Longrightarrow> parse_int_or_zero (int_or_empty expo (Some p)) = p"
  by (simp add: int_or_empty_def parse_int_or_zero_int_to_string)
     (simp add: parse_int_or_zero_def parseInt_Nil)

lemma map_filter_parse_classes:
  "list_all (\<lambda>c. \<bar>c\<bar> < 10 ^ 21) cs \<Longrightarrow>
     List.map_filter (\<lambda>c. parseInt (js_trim c)) (map (int_to_string expo) cs) = cs"
  by (induction cs) (simp_all add: js_trim_int_to_string parseInt_int_to_string)

lemma parse_class_list_join:
  assumes "list_all (\<lambda>c. \<bar>c\<bar> < 10 ^ 21) cs"
  shows "parse_class_list (join_with [59] (map (int_to_string expo) cs)) = cs"
proof (cases "cs = []")
  case True
  then show ?thesis by (simp add: parse_class_list_def)
next
  case False
  let ?xs = "map (int_to_string expo) cs"
  have xs: "?xs \<noteq> []" using False by simp
  have no59: "\<forall>x \<in> set ?xs. 59 \<notin> set x"
  proof
    fix x assume "x \<in> set ?xs"
    then obtain c where "c \<in> set cs" "x = int_to_string expo c" by auto
    moreover have "\<bar>c\<bar> < 10 ^ 21"
      using assms \<open>c \<in> set cs\<close> by (simp add: list_all_iff)
    ultimately show "59 \<notin> set x"
      using int_to_string_chars[of c _ expo] minus_or_digit_not_special by blast
  qed
  have sp: "split_on 59 (join_with [59] ?xs) = ?xs"
    using split_join[OF xs no59] .
  have "join_with [59] ?xs \<noteq> []"
  proof -
    obtain c cs' where "cs = c # cs'" using False by (cases cs) auto
    moreover have "int_to_string expo c \<noteq> []"
      using assms \<open>cs = c # cs'\<close> by (simp add: int_to_string_nonempty)
    ultimately show ?thesis by (cases cs') simp_all
  qed
  then show ?thesis
    by (simp add: parse_class_list_def sp map_filter_parse_classes[OF assms])
qed

lemma js_trim_no_ws: "\<forall>c \<in> set s. \<not> is_js_whitespace c \<Longrightarrow> js_trim s = s"
proof (cases "s = []")
  case True
  then show ?thesis by (simp add: js_trim_Nil)
next
  case False
  assume "\<forall>c \<in> set s. \<not> is_js_whitespace c"
  with False show ?thesis
    by (intro js_trim_id) simp_all
qed

lemma class_cell_chars:
  assumes "list_all (\<lambda>c. \<bar>c\<bar> < 10 ^ 21) cs"
    and "x \<in> set (join_with [59] (map (int_to_string expo) cs))"
  shows "x = 59 \<or> x = 45 \<or> is_digit x"
proof -
  from assms(2) set_join_with[of "[59]" "map (int_to_string expo) cs"]
  have "x = 59 \<or> (\<exists>c \<in> set cs. x \<in> set (int_to_string expo c))"
    by auto
  then show ?thesis
    using assms(1) int_to_string_chars[of _ x expo] by (auto simp: list_all_iff)
qed

lemma js_trim_class_cell:
  assumes "list_all (\<lambda>c. \<bar>c\<bar> < 10 ^ 21) cs"
  shows "js_trim (join_with [59] (map (int_to_string expo) cs))
           = join_with [59] (map (int_to_string expo) cs)"
proof (rule js_trim_no_ws, rule ballI)
  fix x assume "x \<in> set (join_with [59] (map (int_to_string expo) cs))"
  then have "x = 59 \<or> x = 45 \<or> is_digit x"
    using class_cell_chars[OF assms] by blast
  then show "\<not> is_js_whitespace x"
    by (auto simp: is_js_whitespace_def is_digit_def)
qed

lemma js_trim_int_or_empty:
  "\<bar>p\<bar> < 10 ^ 21 \<Longrightarrow> js_trim (int_or_empty expo (Some p)) = int_or_empty expo (Some p)"
  by (simp add: int_or_empty_def js_trim_int_to_string js_trim_Nil)

subsection \<open>Reading back a line of quoted cells\<close>

lemma parseCSVRow_loop_step:
  "parseCSVRow_loop acc cur q (c # t) =
     (if c = 34 then
        (if q \<and> t \<noteq> [] \<and> hd t = 34 then parseCSVRow_loop acc (cur @ [34]) q (tl t)
         else parseCSVRow_loop acc cur (\<not> q) t)
      else if c = 44 \<and> \<not> q then parseCSVRow_loop (acc @ [js_trim cur]) [] q t
      else parseCSVRow_loop acc (cur @ [c]) q t)"
  by (cases t) simp_all

lemma quoted_body:
  "34 \<notin> set f \<Longrightarrow>
     parseCSVRow_loop acc cur True (f @ 34 # 44 # rest)
       = parseCSVRow_loop (acc @ [js_trim (cur @ f)]) [] False rest"
proof (induction f arbitrary: cur)
  case Nil
  show ?case
    by (simp add: parseCSVRow_loop_step[of acc cur True 34]
        parseCSVRow_loop_step[of acc cur False 44])
next
  case (Cons a f)
  then have a: "a \<noteq> 34" and f: "34 \<notin> set f" by simp_all
  have "parseCSVRow_loop acc cur True ((a # f) @ 34 # 44 # rest)
      = parseCSVRow_loop acc (cur @ [a]) True (f @ 34 # 44 # rest)"
    using a by (simp add: parseCSVRow_loop_step[of acc cur True a])
  also have "\<dots> = parseCSVRow_loop (acc @ [js_trim ((cur @ [a]) @ f)]) [] False rest"
    using Cons.IH[OF f] .
  finally show ?case by simp
qed

lemma quoted_cell:
  "34 \<notin> set f \<Longrightarrow>
     parseCSVRow_loop acc [] False (([34] @ f @ [34]) @ 44 # rest)
       = parseCSVRow_loop (acc @ [js_trim f]) [] False rest"
  using quoted_body[of f acc "[]" rest]
  by (simp add: parseCSVRow_loop_step[of acc "[]" False 34])

lemma last_cell:
  "44 \<notin> set s \<Longrightarrow> \<exists>x. parseCSVRow_loop acc cur q s = acc @ [x]"
proof (induction s arbitrary: cur q rule: length_induct)
  case (1 s)
  show ?case
  proof (cases s)
    case Nil
    then show ?thesis by simp
  next
    case (Cons c t)
    have t: "44 \<notin> set t" and c: "c \<noteq> 44"
      using "1.prems" Cons by simp_all
    have ih: "\<exists>x. parseCSVRow_loop acc cur' q' u = acc @ [x]"
      if "length u < length s" "44 \<notin> set u" for u cur' q'
      using "1.IH" that by blast
    have tl: "44 \<notin> set (tl t)"
      using t by (cases t) simp_all
    have len: "length t < length s" "length (tl t) < length s"
      using Cons by simp_all
    show ?thesis
      unfolding Cons parseCSVRow_loop_step[of acc cur q c t]
      using c ih[OF len(1) t] ih[OF len(2) tl] by simp
  qed
qed

lemma csv_line_Cons:
  "fs \<noteq> [] \<Longrightarrow> csv_line (f # fs) = ([34] @ f @ [34]) @ 44 # csv_line fs"
  by (cases fs) (simp_all add: csv_line_def)

lemma csv_line_single: "csv_line [f] = [34] @ f @ [34]"
  by (simp add: csv_line_def)

lemma quoted_cells:
  assumes "\<forall>f \<in> set fs. 34 \<notin> set f" "44 \<notin> set l"
  shows "\<exists>x. parseCSVRow_loop acc [] False (csv_line (fs @ [l])) = acc @ map js_trim fs @ [x]"
  using assms(1)
proof (induction fs arbitrary: acc)
  case Nil
  have "44 \<notin> set ([34] @ l @ [34])" using assms(2) by simp
  then show ?case
    using last_cell[of "[34] @ l @ [34]" acc "[]" False] by (simp add: csv_line_single)
next
  case (Cons f fs)
  then have f: "34 \<notin> set f" and fs: "\<forall>f \<in> set fs. 34 \<notin> set f" by simp_all
  have "parseCSVRow_loop acc [] False (csv_line ((f # fs) @ [l]))
      = parseCSVRow_loop (acc @ [js_trim f]) [] False (csv_line (fs @ [l]))"
    using quoted_cell[OF f] csv_line_Cons[of "fs @ [l]" f] by simp
  moreover obtain x where
    "parseCSVRow_loop (acc @ [js_trim f]) [] False (csv_line (fs @ [l]))
       = (acc @ [js_trim f]) @ map js_trim fs @ [x]"
    using Cons.IH[OF fs] by blast
  ultimately show ?case by simp
qed

lemma parseCSVRow_csv_line:
  assumes "\<forall>f \<in> set fs. 34 \<notin> set f" "44 \<notin> set l"
  shows "\<exists>x. parseCSVRow (csv_line (fs @ [l])) = map js_trim fs @ [x]"
  using quoted_cells[OF assms, of "[]"] by (simp add: parseCSVRow_def)

subsection \<open>Lines and their ends\<close>

lemma csv_line_ends:
  assumes "row \<noteq> []"
  shows "csv_line row \<noteq> [] \<and> hd (csv_line row) = 34 \<and> last (csv_line row) = 34"
  using assms
proof (induction row rule: list_nonempty_induct)
  case (single f)
  show ?case by (simp add: csv_line_single)
next
  case (cons f fs)
  then show ?case by (simp add: csv_line_Cons)
qed

lemma set_csv_line: "set (csv_line row) \<subseteq> {34, 44} \<union> \<Union> (set ` set row)"
proof -
  have "set (csv_line row) \<subseteq> set [44] \<union> \<Union> (set ` set (map (\<lambda>field. [34] @ field @ [34]) row))"
    unfolding csv_line_def by (rule set_join_with)
  then show ?thesis by (auto split: if_splits)
qed

lemma csv_line_no_newline:
  "\<forall>f \<in> set row. 10 \<notin> set f \<Longrightarrow> 10 \<notin> set (csv_line row)"
  using set_csv_line[of row] by auto

lemma js_trim_csv_line: "row \<noteq> [] \<Longrightarrow> js_trim (csv_line row) = csv_line row"
  using csv_line_ends[of row] by (intro js_trim_id) (simp_all add: is_js_whitespace_def)

lemma join_lines_ends:
  assumes "ls \<noteq> []" "\<forall>l \<in> set ls. l \<noteq> [] \<and> hd l = 34 \<and> last l = 34"
  shows "join_with [10] ls \<noteq> [] \<and> hd (join_with [10] ls) = 34 \<and> last (join_with [10] ls) = 34"
  using assms
proof (induction ls rule: list_nonempty_induct)
  case (single l)
  then show ?case by simp
next
  case (cons l ls)
  then have "join_with [10] (l # ls) = l @ [10] @ join_with [10] ls"
    by (simp add: join_with_Cons)
  with cons show ?case by simp
qed

subsection \<open>What the exported cells are made of\<close>

lemma clean_digits: "\<forall>c \<in> set s. c = 45 \<or> c = 46 \<or> is_digit c \<Longrightarrow> clean_text s"
  by (auto simp: clean_text_def is_digit_def)

lemma clean_append: "clean_text (a @ b) = (clean_text a \<and> clean_text b)"
  by (auto simp: clean_text_def)

lemma clean_join:
  "\<forall>x \<in> set xs. clean_text x \<Longrightarrow> clean_text (join_with [59] xs)"
  using set_join_with[of "[59]" xs] by (auto simp: clean_text_def)

lemma clean_nat_digits: "clean_text (nat_digits n)"
  using nat_digits_digits by (intro clean_digits) blast

lemma clean_Nil: "clean_text []"
  by (simp add: clean_text_def)

lemma clean_single: "c \<noteq> 34 \<Longrightarrow> c \<noteq> 10 \<Longrightarrow> clean_text [c]"
  by (simp add: clean_text_def)

lemma clean_take_drop: "clean_text s \<Longrightarrow> clean_text (take k s) \<and> clean_text (drop k s)"
  by (auto simp: clean_text_def dest: in_set_takeD in_set_dropD)

lemma clean_replicate: "c \<noteq> 34 \<Longrightarrow> c \<noteq> 10 \<Longrightarrow> clean_text (replicate k c)"
  by (auto simp: clean_text_def)

lemma clean_Cons: "clean_text (c # s) = (c \<noteq> 34 \<and> c \<noteq> 10 \<and> clean_text s)"
  by (auto simp: clean_text_def)

lemma clean_str:
  "clean_text (str ''NaN'')" "clean_text (str ''Infinity'')" "clean_text (str ''-Infinity'')"
  "clean_text (str ''completed'')"
  by (simp_all add: clean_text_def str_def)

lemma clean_int_to_string:
  assumes "\<forall>r. clean_text (expo r)"
  shows "clean_text (int_to_string expo n)"
proof (cases "\<bar>n\<bar> < 10 ^ 21")
  case True
  have "clean_text (if n < 0 then [45] else [])"
    by (simp add: clean_Nil clean_single)
  with True show ?thesis
    unfolding int_to_string_def using clean_nat_digits by (simp only: if_True clean_append)
next
  case False
  with assms show ?thesis
    unfolding int_to_string_def by (simp only: if_False)
qed

lemma clean_int_or_empty:
  assumes "\<forall>r. clean_text (expo r)"
  shows "clean_text (int_or_empty expo n)"
  using clean_int_to_string[OF assms] clean_Nil
  by (cases n) (simp_all add: int_or_empty_def)

lemma clean_fixed_digits: "clean_text (fixed_digits f x)"
proof -
  define n where "n = nat \<lfloor>x * 10 ^ f + 1 / 2\<rfloor>"
  define m where "m = replicate (f + 1 - length (nat_digits n)) 48 @ nat_digits n"
  have m: "clean_text m"
    unfolding m_def clean_append using clean_nat_digits clean_replicate[of 48] by simp
  have "clean_text (take (length m - f) m @ [46] @ drop (length m - f) m)"
    unfolding clean_append using clean_take_drop[OF m] clean_single[of 46] by simp
  with m show ?thesis
    unfolding fixed_digits_def Let_def n_def[symmetric] m_def[symmetric]
    by (cases "f = 0") simp_all
qed

lemma clean_toFixed:
  assumes "\<forall>r. clean_text (expo r)"
  shows "clean_text (toFixed expo f x)"
proof (cases x)
  case (Num r)
  have "clean_text ([45] @ fixed_digits f (- r))"
    unfolding clean_append using clean_fixed_digits clean_single[of 45] by simp
  with Num assms clean_fixed_digits show ?thesis
    by (simp add: toFixed_def)
next
  case NaN
  then show ?thesis by (simp add: toFixed_def clean_str)
next
  case PosInf
  then show ?thesis by (simp add: toFixed_def clean_str)
next
  case NegInf
  then show ?thesis by (simp add: toFixed_def clean_str)
qed

lemma clean_percent:
  assumes "\<forall>r. clean_text (expo r)"
  shows "clean_text (percent expo x)"
  unfolding percent_def clean_append
  using clean_toFixed[OF assms] clean_single[of 37] by simp

lemma response_cell:
  fixes s :: jsstring
  shows "44 \<notin> set (map (\<lambda>c. if c = 44 then 59 else c) (map (\<lambda>c. if c = 10 then 32 else c) s))"
    and "10 \<notin> set (map (\<lambda>c. if c = 44 then 59 else c) (map (\<lambda>c. if c = 10 then 32 else c) s))"
  by auto

lemma export_row_well_formed:
  assumes wf: "well_formed_image img" and ex: "\<forall>r. clean_text (expo r)"
  shows "\<exists>pre l. export_row expo img = Inr (pre @ [l]) \<and> length pre = 18
           \<and> (\<forall>f \<in> set pre. clean_text f) \<and> 44 \<notin> set l \<and> 10 \<notin> set l
           \<and> pre ! 3 = int_to_string expo (actualObjects img)
           \<and> pre ! 4 = join_with [59] (map (int_to_string expo) (actualClasses img))
           \<and> pre ! 6 = int_or_empty expo (predictedObjects img)
           \<and> pre ! 7 = join_with [59] (map (int_to_string expo)
                          (case predictedClasses img of None \<Rightarrow> [] | Some cs \<Rightarrow> cs))"
proof -
  define cc where "cc =
    (if truthy (predictedCountConfidence img)
     then bind_err (to_number (the (predictedCountConfidence img))) (\<lambda>n. Inr (percent expo n))
     else Inr [])"
  have "\<exists>cell. cc = Inr cell \<and> clean_text cell"
  proof (cases "predictedCountConfidence img")
    case None
    then show ?thesis by (simp add: cc_def clean_Nil)
  next
    case (Some v)
    with wf obtain n where v: "v = JNum n"
      by (cases v) (simp_all add: well_formed_image_def)
    show ?thesis
      using Some v clean_percent[OF ex] by (simp add: cc_def bind_err_def clean_Nil)
  qed
  then obtain cell where cell: "cc = Inr cell" "clean_text cell" by blast
  define pre where "pre =
    [id img, filename img, subset img,
     int_to_string expo (actualObjects img),
     join_with [59] (map (int_to_string expo) (actualClasses img)),
     join_with [59] (actualClassNames img),
     int_or_empty expo (predictedObjects img),
     join_with [59] (map (int_to_string expo)
                       (case predictedClasses img of None \<Rightarrow> [] | Some cs \<Rightarrow> cs)),
     join_with [59] (case predictedClassNames img of None \<Rightarrow> [] | Some ns \<Rightarrow> ns),
     (case score img of None \<Rightarrow> [] | Some sc \<Rightarrow> percent expo (countAccuracy sc)),
     (case score img of None \<Rightarrow> [] | Some sc \<Rightarrow> percent expo (classAccuracy sc)),
     cell,
     (case predictedClassConfidences img of
        None \<Rightarrow> []
      | Some cs \<Rightarrow> join_with [59] (map (percent expo) cs)),
     (case cost img of
        None \<Rightarrow> []
      | Some c \<Rightarrow> if c = Num 0 \<or> c = NaN then [] else [36] @ toFixed expo 4 c),
     int_or_empty expo (apiDuration img),
     int_or_empty expo (imageWidth img),
     int_or_empty expo (imageHeight img),
     status img]"
  define l where "l = map (\<lambda>c. if c = 44 then 59 else c)
           (map (\<lambda>c. if c = 10 then 32 else c)
              (case llmResponse img of None \<Rightarrow> [] | Some s \<Rightarrow> s))"
  have row: "export_row expo img = Inr (pre @ [l])"
    unfolding export_row_def cc_def[symmetric] cell
    by (simp add: bind_err_def pre_def l_def)
  have empty: "clean_text []" by (rule clean_Nil)
  have names: "clean_text (join_with [59] (actualClassNames img))"
    "clean_text (join_with [59] (case predictedClassNames img of None \<Rightarrow> [] | Some ns \<Rightarrow> ns))"
    using wf by (auto simp: well_formed_image_def list_all_iff empty
        intro!: clean_join split: option.splits)
  have ints: "clean_text (join_with [59] (map (int_to_string expo) cs))" for cs
    using clean_int_to_string[OF ex] by (intro clean_join) auto
  have percents: "clean_text (join_with [59] (map (percent expo) cs))" for cs
    using clean_percent[OF ex] by (intro clean_join) auto
  have scores: "clean_text (case score img of None \<Rightarrow> [] | Some sc \<Rightarrow> percent expo (countAccuracy sc))"
    "clean_text (case score img of None \<Rightarrow> [] | Some sc \<Rightarrow> percent expo (classAccuracy sc))"
    using clean_percent[OF ex] by (auto simp: empty split: option.splits)
  have confs: "clean_text (case predictedClassConfidences img of
        None \<Rightarrow> [] | Some cs \<Rightarrow> join_with [59] (map (percent expo) cs))"
    using percents by (auto simp: empty split: option.splits)
  have costc: "clean_text (case cost img of
        None \<Rightarrow> []
      | Some c \<Rightarrow> if c = Num 0 \<or> c = NaN then [] else [36] @ toFixed expo 4 c)"
    using clean_toFixed[OF ex]
    by (auto simp: empty clean_Cons split: option.splits)
  have ids: "clean_text (id img)" "clean_text (filename img)" "clean_text (subset img)"
    "clean_text (status img)"
    using wf by (simp_all add: well_formed_image_def clean_str)
  have clean: "\<forall>f \<in> set pre. clean_text f"
    unfolding pre_def
    using ids names ints scores confs costc cell(2) clean_int_to_string[OF ex]
      clean_int_or_empty[OF ex]
    by simp
  have "length pre = 18" by (simp add: pre_def)
  moreover have "44 \<notin> set l" "10 \<notin> set l"
    unfolding l_def by (rule response_cell)+
  moreover have "pre ! 3 = int_to_string expo (actualObjects img)"
    "pre ! 4 = join_with [59] (map (int_to_string expo) (actualClasses img))"
    "pre ! 6 = int_or_empty expo (predictedObjects img)"
    "pre ! 7 = join_with [59] (map (int_to_string expo)
                          (case predictedClasses img of None \<Rightarrow> [] | Some cs \<Rightarrow> cs))"
    by (simp_all add: pre_def)
  ultimately show ?thesis
    using row clean by blast
qed

subsection \<open>The header line\<close>

lemma csv_headers_index:
  "index_of (str ''Actual Objects'') csv_headers = Some 3"
  "index_of (str ''Actual Classes'') csv_headers = Some 4"
  "index_of (str ''Predicted Objects'') csv_headers = Some 6"
  "index_of (str ''Predicted Classes'') csv_headers = Some 7"
  by (simp_all add: csv_headers_def str_def)

lemma csv_headers_length: "length csv_headers = 19"
  by (simp add: csv_headers_def)

lemma csv_headers_complete:
  "list_all (\<lambda>header. header \<in> set csv_headers) requiredHeaders"
  "str ''Count Confidence'' \<in> set csv_headers"
  "str ''Class Confidence'' \<in> set csv_headers"
  by (simp_all add: csv_headers_def requiredHeaders_def str_def)

lemma csv_headers_clean: "\<forall>f \<in> set csv_headers. 10 \<notin> set f"
  by (simp add: csv_headers_def str_def)

lemma header_line_parse: "parse_header_line (csv_line csv_headers) = csv_headers"
  by (simp add: parse_header_line_def csv_line_def csv_headers_def str_def js_trim_def
      js_trim_start_def js_trim_end_def is_js_whitespace_def)

subsection \<open>One row, exported and read back\<close>

lemma reimport_row:
  assumes wf: "well_formed_image img" and ex: "\<forall>r. clean_text (expo r)"
    and row: "export_row expo img = Inr cells"
  shows "cells \<noteq> [] \<and> 10 \<notin> set (csv_line cells)
      \<and> (\<exists>img'. parse_data_line csv_headers True True (csv_line cells) = Some img'
            \<and> actualObjects img' = actualObjects img
            \<and> actualClasses img' = actualClasses img
            \<and> predictedObjects img' = predictedObjects img
            \<and> predictedClasses img' = predictedClasses img
            \<and> score img' = score img)"
proof -
  from export_row_well_formed[OF wf ex] row obtain pre l where
    cells: "cells = pre @ [l]" and len: "length pre = 18"
    and clean: "\<forall>f \<in> set pre. clean_text f" and l: "44 \<notin> set l" "10 \<notin> set l"
    and p3: "pre ! 3 = int_to_string expo (actualObjects img)"
    and p4: "pre ! 4 = join_with [59] (map (int_to_string expo) (actualClasses img))"
    and p6: "pre ! 6 = int_or_empty expo (predictedObjects img)"
    and p7: "pre ! 7 = join_with [59] (map (int_to_string expo)
                          (case predictedClasses img of None \<Rightarrow> [] | Some cs \<Rightarrow> cs))"
    by auto
  from wf obtain p pc where p: "predictedObjects img = Some p" "predictedClasses img = Some pc"
    and bp: "\<bar>p\<bar> < 10 ^ 21" and bpc: "list_all (\<lambda>c. \<bar>c\<bar> < 10 ^ 21) pc"
    and sc: "score img = Some (calculateImageScore (Num (of_int (actualObjects img)))
               (actualClasses img) (Num (of_int p)) pc)"
    by (auto simp: well_formed_image_def split: option.splits)
  from wf have ba: "\<bar>actualObjects img\<bar> < 10 ^ 21"
    and bac: "list_all (\<lambda>c. \<bar>c\<bar> < 10 ^ 21) (actualClasses img)"
    by (simp_all add: well_formed_image_def)
  have ne: "cells \<noteq> []" using cells by simp
  have no_nl: "10 \<notin> set (csv_line cells)"
    using clean l cells by (intro csv_line_no_newline) (auto simp: clean_text_def)
  have "\<forall>f \<in> set pre. 34 \<notin> set f"
    using clean by (simp add: clean_text_def)
  then obtain x where fields: "parseCSVRow (csv_line cells) = map js_trim pre @ [x]"
    using parseCSVRow_csv_line[of pre l] l cells by blast
  let ?fields = "map js_trim pre @ [x]"
  have nth: "?fields ! k = js_trim (pre ! k)" if "k < 18" for k
    using that len by (simp add: nth_append)
  have g: "getField csv_headers ?fields (str ''Actual Objects'') = js_trim (pre ! 3)"
    "getField csv_headers ?fields (str ''Actual Classes'') = js_trim (pre ! 4)"
    "getField csv_headers ?fields (str ''Predicted Objects'') = js_trim (pre ! 6)"
    "getField csv_headers ?fields (str ''Predicted Classes'') = js_trim (pre ! 7)"
    using len by (simp_all add: getField_def csv_headers_index nth)
  have v: "parse_int_or_zero (js_trim (pre ! 3)) = actualObjects img"
    "parse_class_list (js_trim (pre ! 4)) = actualClasses img"
    "parse_int_or_zero (js_trim (pre ! 6)) = p"
    "parse_class_list (js_trim (pre ! 7)) = pc"
    unfolding p3 p4 p6 p7 p option.case
    using ba bac bp bpc
    by (simp_all add: js_trim_int_to_string parse_int_or_zero_int_to_string
        js_trim_class_cell parse_class_list_join js_trim_int_or_empty
        parse_int_or_zero_int_or_empty)
  let ?img' = "row_image csv_headers True True ?fields"
  have "parse_data_line csv_headers True True (csv_line cells) = Some ?img'"
    using ne csv_line_ends[OF ne] len
    by (simp add: parse_data_line_def Let_def js_trim_csv_line fields csv_headers_length)
  moreover have "actualObjects ?img' = actualObjects img" "actualClasses ?img' = actualClasses img"
    "predictedObjects ?img' = predictedObjects img" "predictedClasses ?img' = predictedClasses img"
    by (simp_all add: row_image_fields g v p)
  moreover have "score ?img' = score img"
    by (simp add: row_image_score g v sc)
  ultimately show ?thesis
    using ne no_nl by blast
qed

subsection \<open>The whole file\<close>

lemma export_rows_well_formed:
  assumes "\<forall>img \<in> set imgs. well_formed_image img" "\<forall>r. clean_text (expo r)"
  shows "\<exists>rows. export_rows expo imgs = Inr rows
           \<and> list_all2 (\<lambda>img cells. export_row expo img = Inr cells) imgs rows"
  using assms(1)
proof (induction imgs)
  case Nil
  show ?case by simp
next
  case (Cons img imgs)
  then obtain rows where rows: "export_rows expo imgs = Inr rows"
    "list_all2 (\<lambda>img cells. export_row expo img = Inr cells) imgs rows"
    by auto
  from Cons.prems have "well_formed_image img" by simp
  then obtain cells where "export_row expo img = Inr cells"
    using export_row_well_formed[OF _ assms(2)] by blast
  with rows show ?case
    by (simp add: bind_err_def)
qed

lemma reimport_rows:
  assumes ex: "\<forall>r. clean_text (expo r)"
  shows "list_all2 (\<lambda>img cells. export_row expo img = Inr cells) imgs rows \<Longrightarrow>
     \<forall>img \<in> set imgs. well_formed_image img \<Longrightarrow>
     \<exists>imgs'. List.map_filter (parse_data_line csv_headers True True) (map csv_line rows) = imgs'
        \<and> list_all2 same_prediction imgs imgs'"
proof (induction imgs rows rule: list_all2_induct)
  case Nil
  show ?case by simp
next
  case (Cons img imgs cells rows)
  from Cons.prems have wf: "well_formed_image img" by simp
  from reimport_row[OF wf ex Cons.hyps(1)] obtain img' where
    "parse_data_line csv_headers True True (csv_line cells) = Some img'"
    "same_prediction img img'"
    by (auto simp: same_prediction_def)
  with Cons show ?case by simp
qed

lemma exported_lines:
  assumes ex: "\<forall>r. clean_text (expo r)"
    and rows: "list_all2 (\<lambda>img cells. export_row expo img = Inr cells) imgs rows"
    and wf: "\<forall>img \<in> set imgs. well_formed_image img"
  shows "\<forall>l \<in> set (map csv_line (csv_headers # rows)).
           (l \<noteq> [] \<and> hd l = 34 \<and> last l = 34) \<and> 10 \<notin> set l"
proof -
  have h: "csv_headers \<noteq> []" by (simp add: csv_headers_def)
  have header: "(csv_line csv_headers \<noteq> [] \<and> hd (csv_line csv_headers) = 34
      \<and> last (csv_line csv_headers) = 34) \<and> 10 \<notin> set (csv_line csv_headers)"
    using csv_line_ends[OF h] csv_line_no_newline[OF csv_headers_clean] by simp
  have "(csv_line cells \<noteq> [] \<and> hd (csv_line cells) = 34 \<and> last (csv_line cells) = 34)
      \<and> 10 \<notin> set (csv_line cells)" if "cells \<in> set rows" for cells
  proof -
    from that obtain i where i: "i < length rows" "rows ! i = cells"
      by (auto simp: in_set_conv_nth)
    then have "export_row expo (imgs ! i) = Inr cells" "i < length imgs"
      using rows list_all2_nthD2[OF rows i(1)] list_all2_lengthD[OF rows] by simp_all
    then obtain img where "img \<in> set imgs" "export_row expo img = Inr cells"
      using nth_mem by blast
    with wf reimport_row[OF _ ex, of img cells] have "cells \<noteq> []" "10 \<notin> set (csv_line cells)"
      by auto
    then show ?thesis using csv_line_ends[of cells] by simp
  qed
  with header show ?thesis by auto
qed

lemma round_trip:
  assumes ex: "\<forall>r. clean_text (expo r)"
    and ne: "images result \<noteq> []"
    and wf: "\<forall>img \<in> set (images result). well_formed_image img"
  shows "\<exists>text imgs. exportToCSV expo result = Inr text
           \<and> parseCSVToEvaluationData text = Inr imgs
           \<and> list_all2 same_prediction (images result) imgs"
proof -
  obtain rows where rows: "export_rows expo (images result) = Inr rows"
    "list_all2 (\<lambda>img cells. export_row expo img = Inr cells) (images result) rows"
    using export_rows_well_formed[OF wf ex] by blast
  let ?lines = "map csv_line (csv_headers # rows)"
  let ?text = "join_with [10] ?lines"
  have exported: "exportToCSV expo result = Inr ?text"
    by (simp add: exportToCSV_def rows(1) bind_err_def)
  have lines: "\<forall>l \<in> set ?lines. (l \<noteq> [] \<and> hd l = 34 \<and> last l = 34) \<and> 10 \<notin> set l"
    using exported_lines[OF ex rows(2) wf] .
  have "?text \<noteq> [] \<and> hd ?text = 34 \<and> last ?text = 34"
    using lines by (intro join_lines_ends) auto
  then have trim: "js_trim ?text = ?text"
    by (intro js_trim_id) (simp_all add: is_js_whitespace_def)
  have split: "split_on 10 ?text = ?lines"
    using lines by (intro split_join) auto
  have "length rows = length (images result)"
    using rows(2) by (simp add: list_all2_lengthD)
  with ne have two: "\<not> length ?lines < 2"
    by (cases "images result") simp_all
  obtain imgs where imgs:
    "List.map_filter (parse_data_line csv_headers True True) (map csv_line rows) = imgs"
    "list_all2 same_prediction (images result) imgs"
    using reimport_rows[OF ex rows(2) wf] by blast
  have "parseCSVToEvaluationData ?text = Inr imgs"
    unfolding parseCSVToEvaluationData_def Let_def trim split
    using two csv_headers_complete imgs(1)
    by (simp add: header_line_parse)
  with exported imgs(2) show ?thesis by blast
qed

lemma empty_export:
  "exportToCSV expo empty_run = Inr (csv_line csv_headers)"
  by (simp add: exportToCSV_def empty_run_def bind_err_def)

lemma header_only_import:
  "parseCSVToEvaluationData (csv_line csv_headers)
     = Inl (Error (str ''Invalid CSV format: insufficient data''))"
proof -
  have h: "csv_headers \<noteq> []" by (simp add: csv_headers_def)
  have "split_on 10 (js_trim (csv_line csv_headers)) = [csv_line csv_headers]"
    using csv_line_no_newline[OF csv_headers_clean]
    by (simp add: js_trim_csv_line[OF h] split_on_no_sep)
  then show ?thesis
    by (simp add: parseCSVToEvaluationData_def)
qed

lemma example_image_well_formed: "well_formed_image example_image"
proof -
  have "calculateImageScore (Num 2) [0, 1 :: int] (Num 2) [0, 1]
      = \<lparr>countAccuracy = Num 1, classAccuracy = Num 1\<rparr>"
    by (simp add: calculateImageScore_def calculateClassAccuracy_def Let_def)
  then show ?thesis
    by (simp add: well_formed_image_def example_image_def clean_text_def str_def)
qed

text \<open>
  C5 as stated fails: a run without images (all of its images are completed and well
  formed) exports to the header line alone, and the import rejects a file without a
  second line.
\<close>

theorem empty_run_round_trip_counterexample:
  "list_all well_formed_image (images empty_run)
   \<and> exportToCSV no_exponent empty_run = Inr (csv_line csv_headers)
   \<and> parseCSVToEvaluationData (csv_line csv_headers)
       = Inl (Error (str ''Invalid CSV format: insufficient data''))"
  using empty_export[of no_exponent] header_only_import
  by (simp add: empty_run_def)

text \<open>
  C5, amended. For every run that has at least one image and whose images are
  completed and well formed (integer counts and class ids below \<open>10^21\<close> in
  magnitude, prediction present, score as \<open>calculateImageScore\<close> gives it for the
  image's own counts and classes, a numeric count confidence if any, identity, names
  and status without double quote or line feed), \<open>exportToCSV\<close> succeeds and
  \<open>parseCSVToEvaluationData\<close> of its text yields as many images, image by image
  with the same counts, the same actualClasses and predictedClasses sequences (hence
  multisets) and exactly the original score. This holds for every way of printing
  numbers from \<open>10^21\<close> on that uses no double quote and no line feed.
\<close>

theorem export_import_round_trip:
  assumes "\<forall>r. clean_text (expo r)"
    and "images result \<noteq> []"
    and "\<forall>img \<in> set (images result). well_formed_image img"
  shows "\<exists>csv imgs. exportToCSV expo result = Inr csv
           \<and> parseCSVToEvaluationData csv = Inr imgs
           \<and> length imgs = length (images result)
           \<and> (\<forall>i < length imgs.
                 actualObjects (imgs ! i) = actualObjects (images result ! i)
                 \<and> actualClasses (imgs ! i) = actualClasses (images result ! i)
                 \<and> predictedObjects (imgs ! i) = predictedObjects (images result ! i)
                 \<and> predictedClasses (imgs ! i) = predictedClasses (images result ! i)
                 \<and> score (imgs ! i) = score (images result ! i))"
proof -
  obtain csv imgs where r: "exportToCSV expo result = Inr csv"
    "parseCSVToEvaluationData csv = Inr imgs"
    "list_all2 same_prediction (images result) imgs"
    using round_trip[OF assms] by blast
  from r(3) have "length imgs = length (images result)"
    and "\<forall>i < length imgs. same_prediction (images result ! i) (imgs ! i)"
    by (simp_all add: list_all2_conv_all_nth)
  with r(1,2) show ?thesis
    unfolding same_prediction_def by blast
qed

theorem export_import_round_trip_witness:
  "\<exists>csv imgs. exportToCSV no_exponent example_run = Inr csv
     \<and> parseCSVToEvaluationData csv = Inr imgs
     \<and> length imgs = 1
     \<and> actualClasses (imgs ! 0) = [0, 1]
     \<and> predictedClasses (imgs ! 0) = Some [0, 1]
     \<and> score (imgs ! 0) = Some \<lparr>countAccuracy = Num 1, classAccuracy = Num 1\<rparr>"
proof -
  have h1: "\<forall>r. clean_text (no_exponent r)"
    by (simp add: no_exponent_def clean_text_def)
  have h2: "images example_run \<noteq> []"
    by (simp add: example_run_def)
  have h3: "\<forall>img \<in> set (images example_run). well_formed_image img"
    by (simp add: example_run_def example_image_well_formed)
  obtain csv imgs where r: "exportToCSV no_exponent example_run = Inr csv"
    "parseCSVToEvaluationData csv = Inr imgs"
    "length imgs = length (images example_run)"
    "\<forall>i < length imgs.
       actualObjects (imgs ! i) = actualObjects (images example_run ! i)
       \<and> actualClasses (imgs ! i) = actualClasses (images example_run ! i)
       \<and> predictedObjects (imgs ! i) = predictedObjects (images example_run ! i)
       \<and> predictedClasses (imgs ! i) = predictedClasses (images example_run ! i)
       \<and> score (imgs ! i) = score (images example_run ! i)"
    using export_import_round_trip[OF h1 h2 h3] by blast
  from r(3) have l: "length imgs = 1"
    by (simp add: example_run_def)
  with r(4) have "actualClasses (imgs ! 0) = [0, 1]" "predictedClasses (imgs ! 0) = Some [0, 1]"
    "score (imgs ! 0) = Some \<lparr>countAccuracy = Num 1, classAccuracy = Num 1\<rparr>"
    by (simp_all add: example_run_def example_image_def)
  with r(1,2) l show ?thesis by blast
qed

end
